theory Spec2Isabelle
  imports Complex_Main "HOL-Library.Char_ord" "HOL-Library.List_Lexorder"
    "HOL-Library.Multiset" "HOL-Library.Sublist"
begin

section \<open>Strings, character classes and the string methods the scripts call\<close>

text \<open>
  Python strings are modelled as \<^typ>\<open>string\<close>, one \<^typ>\<open>char\<close> per code point, so the
  model covers the code points below 256. On that range the classes of Python's \<^verbatim>\<open>re\<close>
  module for \<^verbatim>\<open>str\<close> patterns are: \<^verbatim>\<open>[a-zA-Z]\<close> and \<^verbatim>\<open>[0-9]\<close> the ASCII ranges;
  \<^verbatim>\<open>\w\<close> the ASCII letters, digits and underscore together with the Latin-1 letters and
  numeric signs; \<^verbatim>\<open>\s\<close> (and what \<^verbatim>\<open>str.strip\<close> removes) the characters 9 to 13, 28 to 32,
  133 and 160. Under \<^verbatim>\<open>re.IGNORECASE\<close> a letter of a keyword matches its two ASCII cases.
\<close>

datatype error = IndexError | KeyError

definition is_alpha :: "char \<Rightarrow> bool" where
  "is_alpha c = ((CHR ''a'' \<le> c \<and> c \<le> CHR ''z'') \<or> (CHR ''A'' \<le> c \<and> c \<le> CHR ''Z''))"

definition is_digit :: "char \<Rightarrow> bool" where
  "is_digit c = (CHR ''0'' \<le> c \<and> c \<le> CHR ''9'')"

definition is_word_char :: "char \<Rightarrow> bool" where
  "is_word_char c =
     (is_alpha c \<or> is_digit c \<or> c = CHR ''_'' \<or>
      c = CHR 0xAA \<or> c = CHR 0xB2 \<or> c = CHR 0xB3 \<or> c = CHR 0xB5 \<or> c = CHR 0xB9 \<or>
      c = CHR 0xBA \<or> c = CHR 0xBC \<or> c = CHR 0xBD \<or> c = CHR 0xBE \<or>
      (CHR 0xC0 \<le> c \<and> c \<noteq> CHR 0xD7 \<and> c \<noteq> CHR 0xF7))"

definition is_space :: "char \<Rightarrow> bool" where
  "is_space c =
     ((CHR 0x09 \<le> c \<and> c \<le> CHR 0x0D) \<or> (CHR 0x1C \<le> c \<and> c \<le> CHR 0x20) \<or>
      c = CHR 0x85 \<or> c = CHR 0xA0)"

definition lower_char :: "char \<Rightarrow> char" where
  "lower_char c =
     (if CHR ''A'' \<le> c \<and> c \<le> CHR ''Z'' then char_of (of_char c + (32::nat)) else c)"

text \<open>A keyword matched at the start of a string, case-insensitively and case-sensitively.\<close>

definition ci_prefix :: "string \<Rightarrow> string \<Rightarrow> bool" where
  "ci_prefix kw s =
     (length kw \<le> length s \<and> map lower_char (take (length kw) s) = map lower_char kw)"

definition starts_with :: "string \<Rightarrow> string \<Rightarrow> bool" where
  "starts_with kw s = (take (length kw) s = kw)"

text \<open>\<^verbatim>\<open>re.search(kw, s, re.IGNORECASE)\<close> for a literal keyword.\<close>

fun search_ci :: "string \<Rightarrow> string \<Rightarrow> bool" where
  "search_ci kw [] = ci_prefix kw []"
| "search_ci kw (c # cs) = (ci_prefix kw (c # cs) \<or> search_ci kw cs)"

text \<open>\<^verbatim>\<open>s.strip()\<close> and \<^verbatim>\<open>s.split(sep)\<close> for a one-character separator.\<close>

definition strip :: "string \<Rightarrow> string" where
  "strip s = rev (dropWhile is_space (rev (dropWhile is_space s)))"

fun split_on :: "char \<Rightarrow> string \<Rightarrow> string list" where
  "split_on sep [] = [[]]"
| "split_on sep (c # cs) =
     (if c = sep then [] # split_on sep cs
      else (case split_on sep cs of [] \<Rightarrow> [[c]] | p # ps \<Rightarrow> (c # p) # ps))"

text \<open>\<^verbatim>\<open>xs[i]\<close> for a non-negative index: out of range raises \<^verbatim>\<open>IndexError\<close>.\<close>

definition index :: "'a list \<Rightarrow> nat \<Rightarrow> error + 'a" where
  "index xs i = (if i < length xs then Inr (xs ! i) else Inl IndexError)"

text \<open>
  \<^verbatim>\<open>target.find(search)\<close>: the lowest index at which \<^verbatim>\<open>search\<close> occurs in \<^verbatim>\<open>target\<close>,
  or -1. The comparison is case-sensitive.
\<close>

fun find :: "string \<Rightarrow> string \<Rightarrow> int" where
  "find [] search = (if search = [] then 0 else - 1)"
| "find (c # cs) search =
     (if starts_with search (c # cs) then 0
      else (let i = find cs search in if i = - 1 then - 1 else i + 1))"

section \<open>Lexical extractor\<close>

subsection \<open>The regular expressions of the extractor\<close>

text \<open>
  Each pattern is modelled by a matcher that tries the pattern at the start of a string
  and returns the captured group with the text left after the match, and by the
  left-to-right scan of \<^verbatim>\<open>re.findall\<close>: after a match the scan resumes behind it,
  otherwise one character further.

  \<^verbatim>\<open>FROM\s+(\w+)\<close>, case-insensitive: both repetitions are greedy, and giving back
  characters never helps, so the match takes the whole run of whitespace and then the
  whole run of word characters.
\<close>

definition match_from_at :: "string \<Rightarrow> (string \<times> string) option" where
  "match_from_at s =
     (if ci_prefix ''FROM'' s then
        (let r = dropWhile is_space (drop 4 s) in
         if takeWhile is_space (drop 4 s) \<noteq> [] \<and> takeWhile is_word_char r \<noteq> []
         then Some (takeWhile is_word_char r, dropWhile is_word_char r) else None)
      else None)"

text \<open>
  \<^verbatim>\<open>SELECT\s+(.*?)\s+FROM\<close>, case-insensitive, dot matching newlines. The lazy group is
  the shortest text after which whitespace and then \<^verbatim>\<open>FROM\<close> follow.
\<close>

fun find_ws_from :: "string \<Rightarrow> (string \<times> string) option" where
  "find_ws_from [] = None"
| "find_ws_from (c # cs) =
     (if is_space c \<and> ci_prefix ''FROM'' (dropWhile is_space cs)
      then Some ([], drop 4 (dropWhile is_space cs))
      else (case find_ws_from cs of None \<Rightarrow> None | Some (g, r) \<Rightarrow> Some (c # g, r)))"

text \<open>
  The first \<^verbatim>\<open>\s+\<close> is greedy: it takes the whole whitespace run first, and the group
  is then searched behind it. Only when that fails does it give one whitespace character
  back, which matches exactly when \<^verbatim>\<open>FROM\<close> follows the run, with an empty group.
\<close>

definition match_select_at :: "string \<Rightarrow> (string \<times> string) option" where
  "match_select_at s =
     (if ci_prefix ''SELECT'' s then
        (let ws = takeWhile is_space (drop 6 s); r = dropWhile is_space (drop 6 s) in
         if ws = [] then None
         else (case find_ws_from r of
                 Some m \<Rightarrow> Some m
               | None \<Rightarrow> if 2 \<le> length ws \<and> ci_prefix ''FROM'' r
                          then Some ([], drop 4 r) else None))
      else None)"

text \<open>
  \<^verbatim>\<open>CASE\s+WHEN(.+?)END\<close>, case-sensitive, dot matching newlines: the group has at least
  one character and ends before the nearest \<^verbatim>\<open>END\<close> behind that character.
\<close>

fun find_END :: "string \<Rightarrow> (string \<times> string) option" where
  "find_END [] = None"
| "find_END (c # cs) =
     (if starts_with ''END'' (c # cs) then Some ([], drop 3 (c # cs))
      else (case find_END cs of None \<Rightarrow> None | Some (g, r) \<Rightarrow> Some (c # g, r)))"

definition match_case_at :: "string \<Rightarrow> (string \<times> string) option" where
  "match_case_at s =
     (if starts_with ''CASE'' s then
        (let r = dropWhile is_space (drop 4 s) in
         if takeWhile is_space (drop 4 s) \<noteq> [] \<and> starts_with ''WHEN'' r then
           (case drop 4 r of
              [] \<Rightarrow> None
            | c # cs \<Rightarrow> (case find_END cs of None \<Rightarrow> None | Some (g, rest) \<Rightarrow> Some (c # g, rest)))
         else None)
      else None)"

text \<open>
  \<^verbatim>\<open>re.findall\<close> with one group, for a matcher whose matches are never empty. A matcher
  that handed back a text not shorter than its input would loop; the scan then moves
  one character on, as the regular-expression engine does after an empty match.
\<close>

function findall :: "(string \<Rightarrow> (string \<times> string) option) \<Rightarrow> string \<Rightarrow> string list" where
  "findall m [] = []"
| "findall m (c # cs) =
     (case m (c # cs) of
        None \<Rightarrow> findall m cs
      | Some (g, rest) \<Rightarrow>
          if length rest \<le> length cs then g # findall m rest else g # findall m cs)"
  by pat_completeness auto
termination
  by (relation "measure (\<lambda>(m, s). length s)") auto

text \<open>
  \<^verbatim>\<open>re.search(r'\bAS\b', item, re.IGNORECASE)\<close>. The flag \<open>prev\<close> says whether the
  character before the current position is a word character; \<^verbatim>\<open>\b\<close> before \<^verbatim>\<open>AS\<close>
  needs that it is not, \<^verbatim>\<open>\b\<close> behind it that no word character follows.
\<close>

fun search_AS :: "bool \<Rightarrow> string \<Rightarrow> bool" where
  "search_AS prev [] = False"
| "search_AS prev (c # cs) =
     ((\<not> prev \<and> ci_prefix ''AS'' (c # cs) \<and>
       (case drop 1 cs of [] \<Rightarrow> True | d # _ \<Rightarrow> \<not> is_word_char d))
      \<or> search_AS (is_word_char c) cs)"

text \<open>\<^verbatim>\<open>re.search(r'\bAS\s+(\w+)', item, re.IGNORECASE)\<close>: group 1 of the leftmost match.\<close>

fun search_AS_alias :: "bool \<Rightarrow> string \<Rightarrow> string option" where
  "search_AS_alias prev [] = None"
| "search_AS_alias prev (c # cs) =
     (let w = takeWhile is_word_char (dropWhile is_space (drop 1 cs)) in
      if \<not> prev \<and> ci_prefix ''AS'' (c # cs) \<and> takeWhile is_space (drop 1 cs) \<noteq> [] \<and> w \<noteq> []
      then Some w
      else search_AS_alias (is_word_char c) cs)"

text \<open>\<^verbatim>\<open>re.search(r'STRFTIME|JSON_EXTRACT|datetime\(', item, re.IGNORECASE)\<close>.\<close>

definition excluded_call :: "string \<Rightarrow> bool" where
  "excluded_call item =
     (search_ci ''STRFTIME'' item \<or> search_ci ''JSON_EXTRACT'' item \<or> search_ci ''datetime('' item)"

subsection \<open>\<^verbatim>\<open>extract_attribute_names\<close> and \<^verbatim>\<open>extract_sql_details\<close>\<close>

text \<open>
  The body of the inner loop of \<^verbatim>\<open>extract_attribute_names\<close>: what one comma-separated
  clause appends to \<^verbatim>\<open>attributes\<close>, or the exception it raises.
\<close>

definition attribute_of_item :: "string \<Rightarrow> error + string list" where
  "attribute_of_item raw =
     (let item = strip raw in
      if CHR ''*'' \<in> set item then Inr [''* (all columns returned)'']
      else if search_AS False item then
        (case search_AS_alias False item of Some alias \<Rightarrow> Inr [alias] | None \<Rightarrow> Inr [])
      else if CHR ''.'' \<in> set item then
        (case index (split_on CHR ''.'' item) 1 of Inl e \<Rightarrow> Inl e | Inr part \<Rightarrow> Inr [part])
      else if \<not> excluded_call item then Inr [item]
      else Inr [])"

text \<open>A loop that appends what each step yields and stops at the first exception.\<close>

fun collect :: "('a \<Rightarrow> error + 'b list) \<Rightarrow> 'a list \<Rightarrow> error + 'b list" where
  "collect f [] = Inr []"
| "collect f (x # xs) =
     (case f x of
        Inl e \<Rightarrow> Inl e
      | Inr ys \<Rightarrow> (case collect f xs of Inl e \<Rightarrow> Inl e | Inr zs \<Rightarrow> Inr (ys @ zs)))"

definition extract_attribute_names :: "string \<Rightarrow> error + string list" where
  "extract_attribute_names sql =
     collect (\<lambda>segment. collect attribute_of_item (split_on CHR '','' segment))
       (findall match_select_at sql)"

definition extract_sql_details :: "string \<Rightarrow> error + (string list \<times> string list \<times> string list)" where
  "extract_sql_details sql_query =
     (let tables_queried = findall match_from_at sql_query in
      case extract_attribute_names sql_query of
        Inl e \<Rightarrow> Inl e
      | Inr extracted_attributes \<Rightarrow>
          Inr (tables_queried, extracted_attributes,
               map (\<lambda>c. ''description: '' @ strip c) (findall match_case_at sql_query)))"

section \<open>Record normalizer\<close>

text \<open>
  The \<^verbatim>\<open>Query\<close> cell of a row is a JSON text. What \<^verbatim>\<open>pd.notnull\<close> and \<^verbatim>\<open>json.loads\<close>
  make of it is one of three things: a null cell, a text that raises \<^verbatim>\<open>JSONDecodeError\<close>,
  or an object. Of the object the scripts read six keys, each of which may be absent; as
  in the input row shape, a key that is present holds a string (\<^verbatim>\<open>categories\<close> a list of
  objects with an optional \<^verbatim>\<open>name\<close>).
\<close>

record query_json =
  name :: "string option"
  command :: "string option"
  principalType :: "string option"
  queryId :: "string option"
  queryType :: "string option"
  categories :: "string option list option"

datatype query_cell = Null | Malformed | Decoded query_json

text \<open>
  A row of the combined dataset: the \<^verbatim>\<open>Query\<close> cell and the four dataset columns, the
  latter as the statistics functions read them: \<^verbatim>\<open>Possible Cases\<close> after
  \<^verbatim>\<open>ast.literal_eval\<close> (\<open>None\<close> when it raises \<^verbatim>\<open>ValueError\<close> or \<^verbatim>\<open>SyntaxError\<close>),
  \<^verbatim>\<open>Customer ID\<close> and \<^verbatim>\<open>Region\<close> after \<^verbatim>\<open>str\<close>, and \<^verbatim>\<open>Created At (UTC)\<close> as the
  text of the parsed date (\<open>None\<close> when \<^verbatim>\<open>strptime\<close> raises \<^verbatim>\<open>ValueError\<close>).
\<close>

record combined_row =
  Query :: query_cell
  Possible_Cases :: "string list option"
  Customer_ID :: string
  Region :: string
  Created_At :: "string option"

definition get :: "'a option \<Rightarrow> 'a \<Rightarrow> 'a" where
  "get v d = (case v of Some x \<Rightarrow> x | None \<Rightarrow> d)"

definition extract_name :: "query_cell \<Rightarrow> string" where
  "extract_name query =
     (case query of Decoded j \<Rightarrow> get (name j) ''Unnamed'' | _ \<Rightarrow> ''Unnamed'')"

text \<open>\<^verbatim>\<open>.replace('\\n', '\n')\<close>: a backslash followed by \<^verbatim>\<open>n\<close> becomes a line feed.\<close>

fun replace_newlines :: "string \<Rightarrow> string" where
  "replace_newlines (a # b # cs) =
     (if a = CHR 0x5C \<and> b = CHR ''n'' then CHR 0x0A # replace_newlines cs
      else a # replace_newlines (b # cs))"
| "replace_newlines cs = cs"

definition extract_command :: "query_cell \<Rightarrow> string" where
  "extract_command query =
     (case query of
        Decoded j \<Rightarrow>
          [CHR 0x22] @ replace_newlines (get (command j) ''SQL statement not available'') @ [CHR 0x22]
      | _ \<Rightarrow> [CHR 0x22] @ ''SQL statement not available'' @ [CHR 0x22])"

definition extract_principal_type :: "query_cell \<Rightarrow> string" where
  "extract_principal_type query =
     (case query of Decoded j \<Rightarrow> get (principalType j) ''Type not available''
      | _ \<Rightarrow> ''Type not available'')"

definition extract_query_id :: "query_cell \<Rightarrow> string" where
  "extract_query_id query =
     (case query of Decoded j \<Rightarrow> get (queryId j) ''ID not available''
      | _ \<Rightarrow> ''ID not available'')"

definition extract_query_type :: "query_cell \<Rightarrow> string" where
  "extract_query_type query =
     (case query of Decoded j \<Rightarrow> get (queryType j) ''Type not available''
      | _ \<Rightarrow> ''Type not available'')"

text \<open>\<^verbatim>\<open>', '.join(names)\<close>.\<close>

fun join :: "string \<Rightarrow> string list \<Rightarrow> string" where
  "join sep [] = []"
| "join sep [x] = x"
| "join sep (x # y # ys) = x @ sep @ join sep (y # ys)"

definition extract_query_categories :: "query_cell \<Rightarrow> string" where
  "extract_query_categories query =
     (case query of
        Decoded j \<Rightarrow> join '', '' (map (\<lambda>category. get category []) (get (categories j) []))
      | _ \<Rightarrow> ''Categories not available'')"

text \<open>
  \<^verbatim>\<open>load_and_process_columns\<close> adds six columns to the combined dataset, each by applying
  one of the functions above to the \<^verbatim>\<open>Query\<close> cell of every row.
\<close>

record extracted_row = combined_row +
  extracted_name :: string
  extracted_sql_statement :: string
  extracted_principal_type :: string
  extracted_query_id :: string
  extracted_query_type :: string
  extracted_query_categories :: string

definition add_extracted_columns :: "combined_row list \<Rightarrow> extracted_row list" where
  "add_extracted_columns combined_df =
     map (\<lambda>row. combined_row.extend row
            (extracted_row.fields (extract_name (Query row)) (extract_command (Query row))
               (extract_principal_type (Query row)) (extract_query_id (Query row))
               (extract_query_type (Query row)) (extract_query_categories (Query row))))
       combined_df"

section \<open>Aggregation engine\<close>

subsection \<open>\<^verbatim>\<open>summarize_case_query_data\<close>\<close>

record facts_row =
  query_name :: string
  os_query_table :: "string list"
  unique_osquery_table :: "string list"
  query_attributes :: "string list"
  unique_osquery_attributes :: "string list"

record summary_row = facts_row +
  os_query_table_removed_items :: "string list"
  query_attributes_removed_items :: "string list"

text \<open>\<^verbatim>\<open>sorted(set(xs))\<close>; Python compares strings by code point, as the order on lists does.\<close>

definition sorted_set :: "string list \<Rightarrow> string list" where
  "sorted_set xs = sort (remdups xs)"

text \<open>
  The loop over the rows of the combined dataset. A row whose cell is null fails the
  \<^verbatim>\<open>if\<close>, a row whose cell does not decode reaches \<^verbatim>\<open>continue\<close>: neither appends.
\<close>

fun query_summary_data :: "combined_row list \<Rightarrow> error + facts_row list" where
  "query_summary_data [] = Inr []"
| "query_summary_data (row # rows) =
     (case Query row of
        Decoded query_json \<Rightarrow>
          (case extract_sql_details (get (command query_json) []) of
             Inl e \<Rightarrow> Inl e
           | Inr (tables, attributes, new_attributes) \<Rightarrow>
               (case query_summary_data rows of
                  Inl e \<Rightarrow> Inl e
                | Inr rest \<Rightarrow>
                    Inr (\<lparr> query_name = get (name query_json) ''Unnamed'',
                           os_query_table = tables,
                           unique_osquery_table = sorted_set tables,
                           query_attributes = attributes,
                           unique_osquery_attributes = sorted_set attributes \<rparr> # rest)))
      | _ \<Rightarrow> query_summary_data rows)"

definition sql_keywords_to_log_and_remove :: "string list" where
  "sql_keywords_to_log_and_remove = [''JSON_EACH'', ''GROUP'', ''GROUP_CONCAT'', ''CHAR'', ''SELECT'']"

definition remove_invalid_elements_and_track ::
  "string list \<Rightarrow> string list \<Rightarrow> string list \<times> string list" where
  "remove_invalid_elements_and_track lst elements =
     (filter (\<lambda>item. item \<notin> set elements) lst, filter (\<lambda>item. item \<in> set elements) lst)"

definition remove_invalid_elements_fuzzy_match_and_track ::
  "string list \<Rightarrow> string list \<Rightarrow> string list \<times> string list" where
  "remove_invalid_elements_fuzzy_match_and_track lst elements =
     (filter (\<lambda>target. \<not> list_ex (\<lambda>search. find target search \<noteq> - 1) elements) lst,
      filter (\<lambda>target. list_ex (\<lambda>search. find target search \<noteq> - 1) elements) lst)"

definition check_row :: "facts_row \<Rightarrow> summary_row" where
  "check_row r =
     \<lparr> query_name = query_name r,
       os_query_table =
         fst (remove_invalid_elements_and_track (os_query_table r) sql_keywords_to_log_and_remove),
       unique_osquery_table =
         fst (remove_invalid_elements_and_track (unique_osquery_table r) sql_keywords_to_log_and_remove),
       query_attributes =
         fst (remove_invalid_elements_fuzzy_match_and_track (query_attributes r)
                sql_keywords_to_log_and_remove),
       unique_osquery_attributes =
         fst (remove_invalid_elements_fuzzy_match_and_track (unique_osquery_attributes r)
                sql_keywords_to_log_and_remove),
       os_query_table_removed_items =
         snd (remove_invalid_elements_and_track (os_query_table r) sql_keywords_to_log_and_remove),
       query_attributes_removed_items =
         snd (remove_invalid_elements_fuzzy_match_and_track (query_attributes r)
                sql_keywords_to_log_and_remove) \<rparr>"

text \<open>
  \<^verbatim>\<open>_check_for_sql_parse_errors\<close> reads the columns of the data frame by name. A data
  frame built from an empty list has no columns, and the first read raises \<^verbatim>\<open>KeyError\<close>.
\<close>

definition check_for_sql_parse_errors :: "facts_row list \<Rightarrow> error + summary_row list" where
  "check_for_sql_parse_errors df = (if df = [] then Inl KeyError else Inr (map check_row df))"

definition summarize_case_query_data :: "combined_row list \<Rightarrow> error + summary_row list" where
  "summarize_case_query_data combined_df =
     (case query_summary_data combined_df of
        Inl e \<Rightarrow> Inl e
      | Inr df \<Rightarrow> check_for_sql_parse_errors df)"

section \<open>Attribute classifier\<close>

text \<open>
  \<^verbatim>\<open>re.match(r"^[...]+$", s)\<close> for a character class that excludes the line feed: the
  whole text is a non-empty run of the class, where \<^verbatim>\<open>$\<close> also matches before a line
  feed that ends the text.
\<close>

definition match_class_plus :: "(char \<Rightarrow> bool) \<Rightarrow> string \<Rightarrow> bool" where
  "match_class_plus cls s =
     (let t = (if s \<noteq> [] \<and> last s = CHR 0x0A then butlast s else s)
      in t \<noteq> [] \<and> list_all cls t)"

record attribute_groups =
  alphabetical_attributes :: "string list"
  alphabetical_and_non_numeric :: "string list"
  non_alphabetic :: "string list"
  not_sorted :: "string list"

text \<open>The condition of the first branch: the five \<^verbatim>\<open>re.match\<close> calls joined by \<^verbatim>\<open>or\<close>.\<close>

definition in_group_one :: "string \<Rightarrow> bool" where
  "in_group_one s =
     (match_class_plus (\<lambda>c. is_alpha c \<or> c = CHR 0x27) s \<or>
      match_class_plus is_alpha s \<or>
      match_class_plus (\<lambda>c. is_alpha c \<or> c = CHR ''_'') s \<or>
      match_class_plus (\<lambda>c. is_alpha c \<or> is_digit c) s \<or>
      match_class_plus (\<lambda>c. is_alpha c \<or> is_digit c \<or> c = CHR ''_'') s)"

text \<open>One pass of the loop of \<^verbatim>\<open>__sort_attributes_by_characters\<close>.\<close>

definition sort_step :: "attribute_groups \<Rightarrow> string \<Rightarrow> attribute_groups" where
  "sort_step g s =
     (if in_group_one s then g\<lparr>alphabetical_attributes := alphabetical_attributes g @ [s]\<rparr>
      else if list_ex is_alpha s \<and> list_ex (\<lambda>c. \<not> is_word_char c) s
        then g\<lparr>alphabetical_and_non_numeric := alphabetical_and_non_numeric g @ [s]\<rparr>
      else if \<not> list_ex is_alpha s then g\<lparr>non_alphabetic := non_alphabetic g @ [s]\<rparr>
      else g\<lparr>not_sorted := not_sorted g @ [s]\<rparr>)"

definition sort_attributes_by_characters :: "string list \<Rightarrow> attribute_groups" where
  "sort_attributes_by_characters unique_list_of_attributes =
     foldl sort_step
       \<lparr>alphabetical_attributes = [], alphabetical_and_non_numeric = [],
        non_alphabetic = [], not_sorted = []\<rparr>
       unique_list_of_attributes"

section \<open>Report assembler\<close>

text \<open>
  The document handed to \<^verbatim>\<open>json.dump\<close>. A Python dictionary is written as an object
  (its items in insertion order), a list or a tuple as an array. A Python float is an
  IEEE double and is represented by the rational number that is its exact value.
  Where the script turns a set into a list the order is the interpreter's; the model
  lists the elements in the order of \<^const>\<open>remdups\<close>.
\<close>

datatype json =
    JObject "(string \<times> json) list"
  | JArray "json list"
  | JString string
  | JInt int
  | JNumber rat

text \<open>
  The arithmetic of doubles. Every operation the scripts apply to floats (the division
  of two integers, the product of two floats, the conversion of a decimal text) yields
  the double nearest to the exact result, a tie going to the even mantissa:
  \<open>to_float\<close> of the exact result. A double has a mantissa of 53 bits, or fewer below
  the smallest normal exponent; the results here lie far below the largest double.
\<close>

function bitlen :: "int \<Rightarrow> nat" where
  "bitlen n = (if n \<le> 0 then 0 else Suc (bitlen (n div 2)))"
  by pat_completeness auto
termination
  by (relation "measure nat") auto

declare bitlen.simps [simp del]

definition pow2 :: "int \<Rightarrow> rat" where
  "pow2 e = (if 0 \<le> e then 2 ^ nat e else 1 / 2 ^ nat (- e))"

definition round_half_even :: "rat \<Rightarrow> int" where
  "round_half_even y =
     (let f = \<lfloor>y\<rfloor>; r = y - of_int f
      in if r < 1 / 2 then f else if 1 / 2 < r then f + 1 else if even f then f else f + 1)"

definition to_float :: "rat \<Rightarrow> rat" where
  "to_float x =
     (if x = 0 then 0
      else
        (let a = \<bar>x\<bar>;
             (p, q) = quotient_of a;
             k0 = int (bitlen p) - int (bitlen q);
             k = (if pow2 k0 \<le> a then k0 else k0 - 1);
             e = max (k - 52) (- 1074);
             m = of_int (round_half_even (a / pow2 e)) * pow2 e
         in if x < 0 then - m else m))"

text \<open>
  \<^verbatim>\<open>round(x, ndigits)\<close> for a float: the exact value of \<open>x\<close> is rounded to
  \<open>ndigits\<close> decimal places, a half to the even digit, and the decimal is converted
  back to a double.
\<close>

definition py_round :: "rat \<Rightarrow> nat \<Rightarrow> rat" where
  "py_round x ndigits = to_float (of_int (round_half_even (x * 10 ^ ndigits)) / 10 ^ ndigits)"

text \<open>A stable sort into descending order of a numeric key: \<^verbatim>\<open>sorted(..., reverse=True)\<close>.\<close>

definition sorted_desc :: "('a \<Rightarrow> rat) \<Rightarrow> 'a list \<Rightarrow> 'a list" where
  "sorted_desc key xs = sort_key (\<lambda>x. - key x) xs"

subsection \<open>Dataset statistics\<close>

definition case_counts :: "string list option list \<Rightarrow> nat \<times> nat" where
  "case_counts column =
     (let (unique_values, total_value_count) =
            fold (\<lambda>item (u, t).
                    case item of None \<Rightarrow> (u, t)
                    | Some value_list \<Rightarrow> (fold List.insert value_list u, t + length value_list))
              column ([], 0)
      in (length unique_values, total_value_count))"

definition customer_counts :: "string list \<Rightarrow> nat \<times> nat" where
  "customer_counts column =
     (let (unique_values, total_value_count) =
            fold (\<lambda>item (u, t). (List.insert (strip item) u, t + 1)) column ([], 0)
      in (length unique_values, total_value_count))"

definition unique_region_list :: "string list \<Rightarrow> string list" where
  "unique_region_list column = remdups (map strip column)"

definition date_range :: "string option list \<Rightarrow> string list" where
  "date_range column = remdups (concat (map (\<lambda>item. case item of None \<Rightarrow> [] | Some d \<Rightarrow> [d]) column))"

text \<open>
  The dictionary literal bound to \<^verbatim>\<open>stats\<close> is followed by a comma, so \<^verbatim>\<open>stats\<close> is a
  tuple with the dictionary as its only component.
\<close>

definition add_osquery_data_stats_summary :: "combined_row list \<Rightarrow> bool \<Rightarrow> json" where
  "add_osquery_data_stats_summary df_combined summarize_osqueries =
     (if \<not> summarize_osqueries then JObject []
      else
        (let (unique_case_count, total_case_count) = case_counts (map Possible_Cases df_combined);
             (unique_customer_count, total_customer_count) = customer_counts (map Customer_ID df_combined);
             stats = JArray [JObject
               [(''total_number_queries_analyzed'', JInt (int (length df_combined))),
                (''number_of_unique_cases'', JInt (int unique_case_count)),
                (''total_number_of_cases_analyzed'', JInt (int total_case_count)),
                (''number_of_unique_customers'', JInt (int unique_customer_count)),
                (''total_number_of_customers_analyzed'', JInt (int total_customer_count)),
                (''region_list'', JArray (map JString (unique_region_list (map Region df_combined)))),
                (''date_range'', JArray (map JString (date_range (map Created_At df_combined))))]]
         in stats))"

subsection \<open>Query groups\<close>

text \<open>
  \<^verbatim>\<open>_query_table_data\<close>: \<^verbatim>\<open>groupby('query_name')\<close> yields one row per distinct query name,
  the names in ascending order, each with the list of the cells of its member rows.
\<close>

record group_row =
  group_query_name :: string
  table_list :: "string list list"
  flattened_table_list :: "string list"
  group_removed_items :: "string list"

definition query_table_data :: "summary_row list \<Rightarrow> group_row list" where
  "query_table_data df =
     map (\<lambda>n. let members = filter (\<lambda>r. query_name r = n) df in
            \<lparr> group_query_name = n,
              table_list = map unique_osquery_table members,
              flattened_table_list = concat (map unique_osquery_table members),
              group_removed_items = concat (map os_query_table_removed_items members) \<rparr>)
       (sort (remdups (map query_name df)))"

record query_summary =
  summary_query_name :: string
  frequency_of_execution :: nat
  parsing_error_sql_content :: "string list"
  unique_tables_queried :: "string list"

text \<open>The loop over the groups in \<^verbatim>\<open>add_osquery_query_analysis_summary\<close>, and its counter.\<close>

definition osquery_query_summary_list :: "summary_row list \<Rightarrow> query_summary list" where
  "osquery_query_summary_list df_summarized =
     map (\<lambda>row.
            \<lparr> summary_query_name = group_query_name row,
              frequency_of_execution = length (table_list row),
              parsing_error_sql_content =
                (if length (group_removed_items row) = 0 then [''None''] else group_removed_items row),
              unique_tables_queried = remdups (flattened_table_list row) \<rparr>)
       (query_table_data df_summarized)"

definition counter :: "summary_row list \<Rightarrow> nat" where
  "counter df_summarized =
     fold (\<lambda>row c. c + length (table_list row)) (query_table_data df_summarized) 0"

definition query_execution_percentage :: "query_summary \<Rightarrow> nat \<Rightarrow> rat" where
  "query_execution_percentage query_dict total_query_count =
     to_float
       (py_round (to_float (of_nat (frequency_of_execution query_dict) / of_nat total_query_count)) 5
        * 100)"

definition query_to_json :: "nat \<Rightarrow> query_summary \<Rightarrow> json" where
  "query_to_json total_query_count q =
     JObject
       [(''query_name'', JString (summary_query_name q)),
        (''frequency_of_execution'', JInt (int (frequency_of_execution q))),
        (''parsing_error_sql_content'', JArray (map JString (parsing_error_sql_content q))),
        (''unique_tables_queried'', JArray (map JString (unique_tables_queried q))),
        (''query_execution_percentage'', JNumber (query_execution_percentage q total_query_count))]"

definition create_queries_by_percentage :: "nat \<Rightarrow> query_summary list \<Rightarrow> query_summary list" where
  "create_queries_by_percentage total_query_count query_list =
     sorted_desc (\<lambda>q. query_execution_percentage q total_query_count) query_list"

definition add_osquery_query_analysis_summary :: "summary_row list \<Rightarrow> bool \<Rightarrow> json" where
  "add_osquery_query_analysis_summary df_summarized summarize_queries_in_dataset =
     (if \<not> summarize_queries_in_dataset then JObject []
      else
        (let queries = osquery_query_summary_list df_summarized;
             total = counter df_summarized;
             by_percentage = create_queries_by_percentage total queries
         in JObject
              [(''queries'', JArray (map (query_to_json total) queries)),
               (''queries_by_percentage'',
                  JObject (map (\<lambda>q. (summary_query_name q,
                                       JNumber (query_execution_percentage q total))) by_percentage)),
               (''queries_by_percentage_count'',
                  JObject (map (\<lambda>q. (summary_query_name q,
                             JObject [(''query_execution_percentage'',
                                         JNumber (query_execution_percentage q total)),
                                      (''query_execution_count'',
                                         JInt (int (frequency_of_execution q)))])) by_percentage))]))"

subsection \<open>Table and attribute summaries\<close>

definition create_unique_table_list :: "group_row list \<Rightarrow> string list" where
  "create_unique_table_list df = sorted_set (concat (map flattened_table_list df))"

text \<open>
  Counting into an insertion-ordered dictionary: a key seen before has its count raised
  in place, a new key is appended with count one.
\<close>

fun count_key :: "string \<Rightarrow> (string \<times> nat) list \<Rightarrow> (string \<times> nat) list" where
  "count_key k [] = [(k, 1)]"
| "count_key k ((k', n) # kvs) =
     (if k' = k then (k', n + 1) # kvs else (k', n) # count_key k kvs)"

text \<open>\<^verbatim>\<open>Counter(xs).most_common()\<close>: descending counts, equal counts in insertion order.\<close>

definition most_common :: "string list \<Rightarrow> (string \<times> nat) list" where
  "most_common xs = sorted_desc (\<lambda>(k, n). of_nat n) (fold count_key xs [])"

definition generate_total_table_query_counts :: "summary_row list \<Rightarrow> json list" where
  "generate_total_table_query_counts df =
     (let all_occurrences = concat (map os_query_table df);
          occurrence_count = most_common all_occurrences;
          total_count = sum_list (map snd occurrence_count)
      in [JObject (map (\<lambda>(key, v). (key, JInt (int v))) occurrence_count),
          JObject (map (\<lambda>(key, v).
                     (key, JNumber (py_round
                                     (to_float (to_float (of_nat v / of_nat total_count) * 100)) 2)))
                   occurrence_count)])"

text \<open>
  \<^verbatim>\<open>_generate_table_counts_by_query\<close>: for every table the list of the queries that
  name it, with the number of times each does.
\<close>

fun count_table ::
  "string \<Rightarrow> string \<Rightarrow> (string \<times> (string \<times> nat) list) list \<Rightarrow> (string \<times> (string \<times> nat) list) list"
where
  "count_table query_table q [] = [(query_table, [(q, 1)])]"
| "count_table query_table q ((t, entries) # result) =
     (if t = query_table then (t, count_key q entries) # result
      else (t, entries) # count_table query_table q result)"

definition generate_table_counts_by_query :: "summary_row list \<Rightarrow> json" where
  "generate_table_counts_by_query df =
     (let result = fold (\<lambda>row. fold (\<lambda>query_table. count_table query_table (query_name row))
                                 (os_query_table row)) df [];
          with_totals = map (\<lambda>(key, queries). (key, sum_list (map snd queries), queries)) result;
          sorted_data = sorted_desc (\<lambda>(key, total_queries, queries). of_nat total_queries) with_totals
      in JObject
           (map (\<lambda>(key, total_queries, queries).
                   (key, JArray
                      (JObject [(''total_queries'', JInt (int total_queries))] #
                       map (\<lambda>(q, n). JObject [(''query_name'', JString q),
                                                (''number_of_times_queried'', JInt (int n))])
                         queries)))
              sorted_data))"

text \<open>
  \<^verbatim>\<open>add_osquery_table_analysis_summary\<close> takes the toggle and never reads it: the body
  has no early return.
\<close>

definition add_osquery_table_analysis_summary :: "summary_row list \<Rightarrow> bool \<Rightarrow> json" where
  "add_osquery_table_analysis_summary df_summarized summarize_tables_in_dataet =
     JObject
       [(''unique_table_list'',
           JArray (map JString (create_unique_table_list (query_table_data df_summarized)))),
        (''total_table_query_count'', JArray (generate_total_table_query_counts df_summarized)),
        (''table_counts_by_queries'', generate_table_counts_by_query df_summarized)]"

definition create_unique_attribute_list :: "summary_row list \<Rightarrow> string list" where
  "create_unique_attribute_list df = sorted_set (concat (map unique_osquery_attributes df))"

definition add_osquery_attribute_analysis_summary :: "summary_row list \<Rightarrow> bool \<Rightarrow> json" where
  "add_osquery_attribute_analysis_summary df_summarized summarize_attributes_in_dataset =
     (if \<not> summarize_attributes_in_dataset then JObject []
      else
        (let osquery_unique_attribute_list = create_unique_attribute_list df_summarized;
             sorted_groups = sort_attributes_by_characters osquery_unique_attribute_list
         in JObject
              [(''valid_attributes'', JArray (map JString (alphabetical_attributes sorted_groups))),
               (''valid_attributes_and_sql'',
                  JArray (map JString (alphabetical_and_non_numeric sorted_groups))),
               (''invalid_attributes'', JArray (map JString (non_alphabetic sorted_groups))),
               (''not_sorted'', JArray (map JString (not_sorted sorted_groups))),
               (''unique_attribute_list'', JArray (map JString osquery_unique_attribute_list)),
               (''incorrectly_parsed_attributes'', JArray [])]))"

subsection \<open>\<^verbatim>\<open>export_views_to_json\<close>\<close>

text \<open>The document the function writes; the four toggles in the order of its parameters.\<close>

definition export_views_to_json ::
  "combined_row list \<Rightarrow> summary_row list \<Rightarrow> bool \<Rightarrow> bool \<Rightarrow> bool \<Rightarrow> bool \<Rightarrow> json" where
  "export_views_to_json df_combined df_summarized summarize_osqueries
       summarize_queries_in_dataset summarize_attributes_in_dataset summarize_tables_in_dataset =
     JObject
       [(''osquery_summary'',
         JObject
           [(''os_query_data_analysis_stats'',
               add_osquery_data_stats_summary df_combined summarize_osqueries),
            (''os_query_input_query_summary'',
               add_osquery_query_analysis_summary df_summarized summarize_queries_in_dataset),
            (''os_query_table_analysis_summary'',
               add_osquery_table_analysis_summary df_summarized summarize_tables_in_dataset),
            (''os_query_attribute_analysis_summary'',
               add_osquery_attribute_analysis_summary df_summarized summarize_attributes_in_dataset)])]"

text \<open>Reading a document: the value under a key of an object, and whether a value is an object.\<close>

fun lookup :: "string \<Rightarrow> json \<Rightarrow> json option" where
  "lookup k (JObject kvs) = map_of kvs k"
| "lookup k _ = None"

fun keys :: "json \<Rightarrow> string list" where
  "keys (JObject kvs) = map fst kvs"
| "keys _ = []"

fun is_object :: "json \<Rightarrow> bool" where
  "is_object (JObject kvs) = True"
| "is_object _ = False"

section \<open>Example data\<close>

text \<open>
  A decoded \<^verbatim>\<open>Query\<close> cell with a name and a command, and a row of the combined dataset
  around a cell; the properties below are instantiated on rows built from them.
\<close>

definition example_query :: "string \<Rightarrow> string \<Rightarrow> query_cell" where
  "example_query n sql =
     Decoded \<lparr>name = Some n, command = Some sql, principalType = None, queryId = None,
              queryType = None, categories = None\<rparr>"

definition example_row :: "query_cell \<Rightarrow> combined_row" where
  "example_row q =
     \<lparr>Query = q, Possible_Cases = Some [''case-1''], Customer_ID = ''customer-1'',
      Region = ''eu'', Created_At = Some ''2024-12-27 00:00:00''\<rparr>"

section \<open>Properties of the quarantine\<close>

lemma starts_with_prefix: "starts_with k s = prefix k s"
  unfolding starts_with_def prefix_def
  by (metis append_eq_conv_conj append_take_drop_id)

lemma find_ge: "- 1 \<le> find t k"
  by (induction t) (auto simp: Let_def)

lemma find_sublist: "(find t k \<noteq> - 1) = sublist k t"
proof (induction t)
  case Nil
  then show ?case by simp
next
  case (Cons c cs)
  show ?case using Cons find_ge[of cs k]
    by (auto simp: Let_def starts_with_prefix sublist_Cons_right)
qed

lemma summary_facts_unique:
  "query_summary_data combined_df = Inr facts \<Longrightarrow> r \<in> set facts \<Longrightarrow>
     unique_osquery_table r = sorted_set (os_query_table r) \<and>
     unique_osquery_attributes r = sorted_set (query_attributes r)"
proof (induction combined_df arbitrary: facts)
  case Nil
  then show ?case by simp
next
  case (Cons row rows)
  then show ?case
    by (auto split: query_cell.splits sum.splits prod.splits)
qed

lemma set_sorted_set: "set (sorted_set xs) = set xs"
  by (simp add: sorted_set_def)

lemma length_concat_filter_split:
  "length (concat (map (\<lambda>r. filter P (f r)) rs)) +
   length (concat (map (\<lambda>r. filter (\<lambda>x. \<not> P x) (f r)) rs))
     = length (concat (map f rs))"
proof (induction rs)
  case Nil
  then show ?case by simp
next
  case (Cons r rs)
  have "length (filter P (f r)) + length (filter (\<lambda>x. \<not> P x) (f r)) = length (f r)"
    by (rule sum_length_filter_compl)
  with Cons show ?case by simp
qed

text \<open>
  C3. The quarantine of \<^verbatim>\<open>_check_for_sql_parse_errors\<close> splits what the extractor found.
  For every row \<open>r\<close> of the summary, the table list after the quarantine and the column
  of removed table items together hold exactly the tokens of the extracted table list,
  each as often as it was extracted, and no token is in both; the same holds for the
  attribute list and the column of removed attribute items. A token that the
  quarantine drops from one of the two duplicate-free lists of the row is in the paired
  removed column as well. Summed over the rows of the query group of \<open>r\<close>, the removed
  and the clean tokens are as many as the extracted ones, for tables and attributes.
\<close>

theorem quarantine_partitions_tokens:
  assumes "query_summary_data combined_df = Inr facts" and "r \<in> set facts"
  shows "length (os_query_table_removed_items (check_row r)) + length (os_query_table (check_row r))
           = length (os_query_table r) \<and>
         length (query_attributes_removed_items (check_row r)) + length (query_attributes (check_row r))
           = length (query_attributes r) \<and>
         mset (os_query_table_removed_items (check_row r)) + mset (os_query_table (check_row r))
           = mset (os_query_table r) \<and>
         mset (query_attributes_removed_items (check_row r)) + mset (query_attributes (check_row r))
           = mset (query_attributes r) \<and>
         set (os_query_table_removed_items (check_row r)) \<inter> set (os_query_table (check_row r)) = {} \<and>
         set (query_attributes_removed_items (check_row r)) \<inter> set (query_attributes (check_row r)) = {} \<and>
         set (unique_osquery_table r) - set (unique_osquery_table (check_row r))
           \<subseteq> set (os_query_table_removed_items (check_row r)) \<and>
         set (unique_osquery_attributes r) - set (unique_osquery_attributes (check_row r))
           \<subseteq> set (query_attributes_removed_items (check_row r)) \<and>
         (let members = filter (\<lambda>m. query_name m = query_name r) facts in
            length (concat (map (\<lambda>m. os_query_table_removed_items (check_row m)) members)) +
            length (concat (map (\<lambda>m. os_query_table (check_row m)) members))
              = length (concat (map os_query_table members)) \<and>
            length (concat (map (\<lambda>m. query_attributes_removed_items (check_row m)) members)) +
            length (concat (map (\<lambda>m. query_attributes (check_row m)) members))
              = length (concat (map query_attributes members)))"
proof -
  note u = summary_facts_unique[OF assms]
  have rows:
    "length (os_query_table_removed_items (check_row r)) + length (os_query_table (check_row r))
       = length (os_query_table r) \<and>
     length (query_attributes_removed_items (check_row r)) + length (query_attributes (check_row r))
       = length (query_attributes r)"
    using sum_length_filter_compl
            [of "\<lambda>item. item \<in> set sql_keywords_to_log_and_remove" "os_query_table r"]
          sum_length_filter_compl
            [of "\<lambda>target. list_ex (\<lambda>search. find target search \<noteq> - 1)
                             sql_keywords_to_log_and_remove" "query_attributes r"]
    by (simp add: check_row_def remove_invalid_elements_and_track_def
        remove_invalid_elements_fuzzy_match_and_track_def)
  have msets:
    "mset (os_query_table_removed_items (check_row r)) + mset (os_query_table (check_row r))
       = mset (os_query_table r) \<and>
     mset (query_attributes_removed_items (check_row r)) + mset (query_attributes (check_row r))
       = mset (query_attributes r)"
    by (simp add: check_row_def remove_invalid_elements_and_track_def
        remove_invalid_elements_fuzzy_match_and_track_def)
  have disj:
    "set (os_query_table_removed_items (check_row r)) \<inter> set (os_query_table (check_row r)) = {} \<and>
     set (query_attributes_removed_items (check_row r)) \<inter> set (query_attributes (check_row r)) = {}"
    by (auto simp: check_row_def remove_invalid_elements_and_track_def
        remove_invalid_elements_fuzzy_match_and_track_def)
  have uniq:
    "set (unique_osquery_table r) - set (unique_osquery_table (check_row r))
       \<subseteq> set (os_query_table_removed_items (check_row r)) \<and>
     set (unique_osquery_attributes r) - set (unique_osquery_attributes (check_row r))
       \<subseteq> set (query_attributes_removed_items (check_row r))"
    using u
    by (auto simp: check_row_def remove_invalid_elements_and_track_def
        remove_invalid_elements_fuzzy_match_and_track_def set_sorted_set)
  have grp:
    "length (concat (map (\<lambda>m. os_query_table_removed_items (check_row m)) members)) +
     length (concat (map (\<lambda>m. os_query_table (check_row m)) members))
       = length (concat (map os_query_table members)) \<and>
     length (concat (map (\<lambda>m. query_attributes_removed_items (check_row m)) members)) +
     length (concat (map (\<lambda>m. query_attributes (check_row m)) members))
       = length (concat (map query_attributes members))" for members
    using length_concat_filter_split
            [of "\<lambda>item. item \<in> set sql_keywords_to_log_and_remove" os_query_table members]
          length_concat_filter_split
            [of "\<lambda>target. list_ex (\<lambda>search. find target search \<noteq> - 1)
                             sql_keywords_to_log_and_remove" query_attributes members]
    by (simp add: check_row_def remove_invalid_elements_and_track_def
        remove_invalid_elements_fuzzy_match_and_track_def)
  show ?thesis
    using rows msets disj uniq grp by (simp add: Let_def)
qed

theorem quarantine_partitions_tokens_witness:
  "(let r = \<lparr>query_name = ''Q1'', os_query_table = [''processes'', ''GROUP''],
              unique_osquery_table = [''GROUP'', ''processes''],
              query_attributes = [''pid'', ''GROUP_CONCAT(x)'', ''1''],
              unique_osquery_attributes = [''1'', ''GROUP_CONCAT(x)'', ''pid'']\<rparr>
    in query_summary_data
         [example_row (example_query ''Q1''
            ''SELECT pid, GROUP_CONCAT(x) FROM processes, (SELECT 1 FROM GROUP)'')] = Inr [r] \<and>
       length (os_query_table_removed_items (check_row r)) + length (os_query_table (check_row r)) = 2 \<and>
       length (query_attributes_removed_items (check_row r)) + length (query_attributes (check_row r)) = 3)"
proof -
  let ?r = "\<lparr>query_name = ''Q1'', os_query_table = [''processes'', ''GROUP''],
              unique_osquery_table = [''GROUP'', ''processes''],
              query_attributes = [''pid'', ''GROUP_CONCAT(x)'', ''1''],
              unique_osquery_attributes = [''1'', ''GROUP_CONCAT(x)'', ''pid'']\<rparr>"
  have h: "query_summary_data
         [example_row (example_query ''Q1''
            ''SELECT pid, GROUP_CONCAT(x) FROM processes, (SELECT 1 FROM GROUP)'')] = Inr [?r]"
    by code_simp
  have m: "?r \<in> set [?r]" by simp
  from quarantine_partitions_tokens[OF h m] h show ?thesis
    by (simp add: Let_def)
qed

text \<open>
  C4, as the code has it. \<^verbatim>\<open>__remove_invalid_elements_fuzzy_match_and_track\<close> tests
  \<^verbatim>\<open>target.find(search) != -1\<close>, which compares characters exactly: an attribute is
  removed if and only if one of the keywords, as written in upper case, occurs in it as a
  substring, and it is kept if and only if none does. A table is removed if and only if
  it is equal to one of the keywords.
\<close>

theorem fuzzy_removal_is_case_sensitive:
  "(t \<in> set (snd (remove_invalid_elements_fuzzy_match_and_track lst sql_keywords_to_log_and_remove))
      \<longleftrightarrow> t \<in> set lst \<and> (\<exists>k \<in> set sql_keywords_to_log_and_remove. sublist k t)) \<and>
   (t \<in> set (fst (remove_invalid_elements_fuzzy_match_and_track lst sql_keywords_to_log_and_remove))
      \<longleftrightarrow> t \<in> set lst \<and> \<not> (\<exists>k \<in> set sql_keywords_to_log_and_remove. sublist k t)) \<and>
   (t \<in> set (snd (remove_invalid_elements_and_track lst sql_keywords_to_log_and_remove))
      \<longleftrightarrow> t \<in> set lst \<and> t \<in> set sql_keywords_to_log_and_remove) \<and>
   (t \<in> set (fst (remove_invalid_elements_and_track lst sql_keywords_to_log_and_remove))
      \<longleftrightarrow> t \<in> set lst \<and> t \<notin> set sql_keywords_to_log_and_remove)"
  by (auto simp: remove_invalid_elements_fuzzy_match_and_track_def
      remove_invalid_elements_and_track_def list_ex_iff find_sublist)

theorem fuzzy_removal_is_case_sensitive_witness:
  "''MAX(CHAR_LENGTH(x))'' \<in>
      set (snd (remove_invalid_elements_fuzzy_match_and_track
                  [''pid'', ''MAX(CHAR_LENGTH(x))''] sql_keywords_to_log_and_remove)) \<and>
   ''pid'' \<in>
      set (fst (remove_invalid_elements_fuzzy_match_and_track
                  [''pid'', ''MAX(CHAR_LENGTH(x))''] sql_keywords_to_log_and_remove))"
proof -
  have a: "\<exists>k \<in> set sql_keywords_to_log_and_remove. sublist k ''MAX(CHAR_LENGTH(x))''"
    by code_simp
  have b: "\<not> (\<exists>k \<in> set sql_keywords_to_log_and_remove. sublist k ''pid'')"
    by code_simp
  from fuzzy_removal_is_case_sensitive
         [of "''MAX(CHAR_LENGTH(x))''" "[''pid'', ''MAX(CHAR_LENGTH(x))'']"]
       fuzzy_removal_is_case_sensitive [of "''pid''" "[''pid'', ''MAX(CHAR_LENGTH(x))'']"]
       a b
  show ?thesis by simp
qed

text \<open>
  C4, as stated, fails: the attribute \<^verbatim>\<open>char\<close>, which the extractor yields for
  \<^verbatim>\<open>SELECT char FROM t\<close>, contains the keyword \<^verbatim>\<open>CHAR\<close> when case is ignored, and the
  quarantine keeps it.
\<close>

theorem lower_case_keyword_kept_counterexample:
  "search_ci ''CHAR'' ''char'' \<and>
   extract_attribute_names ''SELECT char FROM t'' = Inr [''char''] \<and>
   remove_invalid_elements_fuzzy_match_and_track [''char''] sql_keywords_to_log_and_remove
     = ([''char''], [])"
  by code_simp

section \<open>Properties of the classifier\<close>

lemma sort_step_fields:
  "alphabetical_attributes (sort_step g x) =
     alphabetical_attributes g @ filter in_group_one [x]"
  "alphabetical_and_non_numeric (sort_step g x) =
     alphabetical_and_non_numeric g @
       filter (\<lambda>s. \<not> in_group_one s \<and> list_ex is_alpha s \<and>
                    list_ex (\<lambda>c. \<not> is_word_char c) s) [x]"
  "non_alphabetic (sort_step g x) =
     non_alphabetic g @ filter (\<lambda>s. \<not> in_group_one s \<and> \<not> list_ex is_alpha s) [x]"
  "not_sorted (sort_step g x) =
     not_sorted g @
       filter (\<lambda>s. \<not> in_group_one s \<and> list_ex is_alpha s \<and>
                    \<not> list_ex (\<lambda>c. \<not> is_word_char c) s) [x]"
  by (simp_all add: sort_step_def)

lemma sort_step_groups:
  "alphabetical_attributes (foldl sort_step g xs) =
     alphabetical_attributes g @ filter in_group_one xs \<and>
   alphabetical_and_non_numeric (foldl sort_step g xs) =
     alphabetical_and_non_numeric g @
       filter (\<lambda>s. \<not> in_group_one s \<and> list_ex is_alpha s \<and>
                    list_ex (\<lambda>c. \<not> is_word_char c) s) xs \<and>
   non_alphabetic (foldl sort_step g xs) =
     non_alphabetic g @ filter (\<lambda>s. \<not> in_group_one s \<and> \<not> list_ex is_alpha s) xs \<and>
   not_sorted (foldl sort_step g xs) =
     not_sorted g @
       filter (\<lambda>s. \<not> in_group_one s \<and> list_ex is_alpha s \<and>
                    \<not> list_ex (\<lambda>c. \<not> is_word_char c) s) xs"
proof (induction xs arbitrary: g)
  case Nil
  then show ?case by simp
next
  case (Cons x xs)
  show ?case
    by (simp add: Cons.IH sort_step_fields)
qed

text \<open>
  C8. The four lists that \<^verbatim>\<open>__sort_attributes_by_characters\<close> returns hold together
  exactly the tokens of the vocabulary it is given, each as often as the vocabulary
  does, and no token is in two of them.
\<close>

theorem buckets_partition_vocabulary:
  "let g = sort_attributes_by_characters vocabulary in
     set (alphabetical_attributes g) \<union> set (alphabetical_and_non_numeric g) \<union>
       set (non_alphabetic g) \<union> set (not_sorted g) = set vocabulary \<and>
     mset (alphabetical_attributes g) + mset (alphabetical_and_non_numeric g) +
       mset (non_alphabetic g) + mset (not_sorted g) = mset vocabulary \<and>
     set (alphabetical_attributes g) \<inter> set (alphabetical_and_non_numeric g) = {} \<and>
     set (alphabetical_attributes g) \<inter> set (non_alphabetic g) = {} \<and>
     set (alphabetical_attributes g) \<inter> set (not_sorted g) = {} \<and>
     set (alphabetical_and_non_numeric g) \<inter> set (non_alphabetic g) = {} \<and>
     set (alphabetical_and_non_numeric g) \<inter> set (not_sorted g) = {} \<and>
     set (non_alphabetic g) \<inter> set (not_sorted g) = {}"
proof -
  have m: "mset (filter in_group_one xs) +
      mset (filter (\<lambda>s. \<not> in_group_one s \<and> list_ex is_alpha s \<and>
                         list_ex (\<lambda>c. \<not> is_word_char c) s) xs) +
      mset (filter (\<lambda>s. \<not> in_group_one s \<and> \<not> list_ex is_alpha s) xs) +
      mset (filter (\<lambda>s. \<not> in_group_one s \<and> list_ex is_alpha s \<and>
                         \<not> list_ex (\<lambda>c. \<not> is_word_char c) s) xs)
      = mset xs" for xs :: "string list"
    by (induction xs) auto
  show ?thesis
    unfolding sort_attributes_by_characters_def Let_def
    by (simp only: sort_step_groups m attribute_groups.simps append_Nil) auto
qed

theorem buckets_partition_vocabulary_witness:
  "sort_attributes_by_characters [''pid'', ''count(x)'', ''-''] =
     \<lparr>alphabetical_attributes = [''pid''], alphabetical_and_non_numeric = [''count(x)''],
      non_alphabetic = [''-''], not_sorted = []\<rparr> \<and>
   set (alphabetical_attributes (sort_attributes_by_characters [''pid'', ''count(x)'', ''-''])) \<inter>
   set (non_alphabetic (sort_attributes_by_characters [''pid'', ''count(x)'', ''-''])) = {}"
proof -
  have e: "sort_attributes_by_characters [''pid'', ''count(x)'', ''-''] =
     \<lparr>alphabetical_attributes = [''pid''], alphabetical_and_non_numeric = [''count(x)''],
      non_alphabetic = [''-''], not_sorted = []\<rparr>"
    by code_simp
  from buckets_partition_vocabulary [of "[''pid'', ''count(x)'', ''-'']"]
  have "set (alphabetical_attributes (sort_attributes_by_characters [''pid'', ''count(x)'', ''-''])) \<inter>
   set (non_alphabetic (sort_attributes_by_characters [''pid'', ''count(x)'', ''-''])) = {}"
    unfolding Let_def by blast
  with e show ?thesis by blast
qed

text \<open>
  C7. In the code a token without any letter can satisfy the first branch: \<^verbatim>\<open>123\<close>
  matches \<^verbatim>\<open>^[a-zA-Z0-9]+$\<close> and a lone apostrophe matches \<^verbatim>\<open>^[a-zA-Z']+$\<close>, so both are
  put with the alphabetical attributes and neither reaches the branch for tokens
  without letters. The extractor yields \<^verbatim>\<open>123\<close> for \<^verbatim>\<open>SELECT 123 FROM t\<close>.
\<close>

theorem letterless_tokens_in_group_one:
  "\<not> list_ex is_alpha ''123'' \<and> \<not> list_ex is_alpha [CHR 0x27] \<and>
   extract_attribute_names ''SELECT 123 FROM t'' = Inr [''123''] \<and>
   sort_attributes_by_characters [''123'', [CHR 0x27]] =
     \<lparr>alphabetical_attributes = [''123'', [CHR 0x27]], alphabetical_and_non_numeric = [],
      non_alphabetic = [], not_sorted = []\<rparr>"
  by code_simp

section \<open>Properties of the extractor\<close>

text \<open>
  The three matchers hand back a text shorter than the one they were given, so the scan
  of \<^const>\<open>findall\<close> always resumes behind the match. \<^const>\<open>search_ci\<close> holds when the
  keyword starts, case ignored, at some position of the text.
\<close>

lemma ci_prefix_length: "ci_prefix kw s \<Longrightarrow> length kw \<le> length s"
  by (simp add: ci_prefix_def)

lemma match_from_at_consumes:
  assumes "match_from_at s = Some (g, rest)"
  shows "length rest < length s"
proof -
  have p: "ci_prefix ''FROM'' s"
    and r: "rest = dropWhile is_word_char (dropWhile is_space (drop 4 s))"
    using assms by (auto simp: match_from_at_def Let_def split: if_splits)
  have "length rest \<le> length (drop 4 s)"
    unfolding r by (meson length_dropWhile_le order_trans)
  moreover have "4 \<le> length s" using ci_prefix_length [OF p] by simp
  ultimately show ?thesis by simp
qed

lemma find_ws_from_consumes: "find_ws_from s = Some (g, rest) \<Longrightarrow> length rest < length s"
proof (induction s arbitrary: g)
  case Nil
  then show ?case by simp
next
  case (Cons c cs)
  show ?case
  proof (cases "is_space c \<and> ci_prefix ''FROM'' (dropWhile is_space cs)")
    case True
    then have "rest = drop 4 (dropWhile is_space cs)" using Cons.prems by simp
    moreover have "length (dropWhile is_space cs) \<le> length cs" by (rule length_dropWhile_le)
    ultimately show ?thesis by simp
  next
    case False
    then obtain g' where "find_ws_from cs = Some (g', rest)"
      using Cons.prems by (auto split: option.splits)
    then have "length rest < length cs" by (rule Cons.IH)
    then show ?thesis by simp
  qed
qed

lemma match_select_at_consumes:
  assumes "match_select_at s = Some (g, rest)"
  shows "length rest < length s"
proof -
  let ?r = "dropWhile is_space (drop 6 s)"
  have p: "ci_prefix ''SELECT'' s"
    using assms by (auto simp: match_select_at_def split: if_splits)
  have l: "length ?r \<le> length (drop 6 s)" by (rule length_dropWhile_le)
  have s: "6 \<le> length s" using ci_prefix_length [OF p] by simp
  have "find_ws_from ?r = Some (g, rest) \<or> rest = drop 4 ?r"
    using assms by (auto simp: match_select_at_def Let_def split: if_splits option.splits)
  then show ?thesis
  proof
    assume "find_ws_from ?r = Some (g, rest)"
    then have "length rest < length ?r" by (rule find_ws_from_consumes)
    with l show ?thesis by simp
  next
    assume "rest = drop 4 ?r"
    with l s show ?thesis by simp
  qed
qed

lemma find_END_consumes: "find_END s = Some (g, rest) \<Longrightarrow> length rest \<le> length s"
proof (induction s arbitrary: g)
  case Nil
  then show ?case by simp
next
  case (Cons c cs)
  show ?case
  proof (cases "starts_with ''END'' (c # cs)")
    case True
    then have "rest = drop 3 (c # cs)" using Cons.prems by simp
    then show ?thesis by simp
  next
    case False
    then obtain g' where "find_END cs = Some (g', rest)"
      using Cons.prems by (auto split: option.splits)
    then have "length rest \<le> length cs" by (rule Cons.IH)
    then show ?thesis by simp
  qed
qed

lemma match_case_at_consumes:
  assumes "match_case_at s = Some (g, rest)"
  shows "length rest < length s"
proof -
  obtain c cs g' where d: "drop 4 (dropWhile is_space (drop 4 s)) = c # cs"
      and f: "find_END cs = Some (g', rest)"
    using assms
    by (auto simp: match_case_at_def Let_def split: if_splits list.splits option.splits)
  have "length rest \<le> length cs" using f by (rule find_END_consumes)
  moreover have "length (c # cs) \<le> length (dropWhile is_space (drop 4 s))"
    unfolding d [symmetric] by simp
  moreover have "length (dropWhile is_space (drop 4 s)) \<le> length (drop 4 s)"
    by (rule length_dropWhile_le)
  ultimately show ?thesis by simp
qed

lemma findall_step:
  "m (c # cs) = Some (g, rest) \<Longrightarrow> length rest < length (c # cs) \<Longrightarrow>
     findall m (c # cs) = g # findall m rest"
  by simp

lemma search_ci_iff: "search_ci kw s \<longleftrightarrow> (\<exists>t. suffix t s \<and> ci_prefix kw t)"
  by (induction s) (auto simp: suffix_Cons)

lemma split_on_unfold:
  "split_on sep s =
     takeWhile (\<lambda>c. c \<noteq> sep) s #
       (case dropWhile (\<lambda>c. c \<noteq> sep) s of [] \<Rightarrow> [] | _ # rest \<Rightarrow> split_on sep rest)"
  by (induction s) (auto split: list.splits)

lemma dropWhile_sep_Cons:
  "sep \<in> set s \<Longrightarrow> dropWhile (\<lambda>c. c \<noteq> sep) s = sep # tl (dropWhile (\<lambda>c. c \<noteq> sep) s)"
  by (induction s) auto

lemma split_on_second:
  assumes "sep \<in> set s"
  shows "index (split_on sep s) 1 =
           Inr (takeWhile (\<lambda>c. c \<noteq> sep) (tl (dropWhile (\<lambda>c. c \<noteq> sep) s)))"
proof -
  let ?rest = "tl (dropWhile (\<lambda>c. c \<noteq> sep) s)"
  have "split_on sep s = takeWhile (\<lambda>c. c \<noteq> sep) s # split_on sep ?rest"
    using dropWhile_sep_Cons[OF assms] split_on_unfold[of sep s]
    by (metis list.simps(5))
  moreover have "split_on sep ?rest = takeWhile (\<lambda>c. c \<noteq> sep) ?rest # tl (split_on sep ?rest)"
    using split_on_unfold[of sep ?rest] by simp
  ultimately show ?thesis
    by (metis One_nat_def index_def length_Cons lessI less_Suc_eq_0_disj nth_Cons_0 nth_Cons_Suc)
qed

lemmas split_on_second_Suc = split_on_second [unfolded One_nat_def]

lemma attribute_of_item_total: "\<exists>ys. attribute_of_item raw = Inr ys"
  by (auto simp: attribute_of_item_def Let_def split_on_second_Suc split: option.splits)

lemma collect_total: "(\<And>x. \<exists>ys. f x = Inr ys) \<Longrightarrow> \<exists>zs. collect f xs = Inr zs"
proof (induction xs)
  case Nil
  then show ?case by simp
next
  case (Cons x xs)
  then obtain zs where "collect f xs = Inr zs" by blast
  moreover obtain ys where "f x = Inr ys" using Cons.prems by blast
  ultimately show ?case by simp
qed

lemma extract_attribute_names_total: "\<exists>attrs. extract_attribute_names sql = Inr attrs"
  unfolding extract_attribute_names_def
  by (intro collect_total attribute_of_item_total)

lemma findall_no_match: "(\<And>t. suffix t s \<Longrightarrow> m t = None) \<Longrightarrow> findall m s = []"
proof (induction s)
  case Nil
  then show ?case by simp
next
  case (Cons c cs)
  have "m (c # cs) = None" using Cons.prems by simp
  moreover have "findall m cs = []"
    using Cons.IH Cons.prems by (simp add: suffix_Cons)
  ultimately show ?case by simp
qed

lemma search_ci_suffix: "\<not> search_ci kw s \<Longrightarrow> suffix t s \<Longrightarrow> \<not> ci_prefix kw t"
  by (induction s) (auto simp: suffix_Cons)

lemma find_ws_from_needs_FROM: "\<not> search_ci ''FROM'' s \<Longrightarrow> find_ws_from s = None"
proof (induction s)
  case Nil
  then show ?case by simp
next
  case (Cons c cs)
  have "suffix (dropWhile is_space cs) (c # cs)"
    by (meson suffix_ConsI suffix_dropWhile)
  then have "\<not> ci_prefix ''FROM'' (dropWhile is_space cs)"
    using Cons.prems search_ci_suffix by blast
  moreover have "find_ws_from cs = None" using Cons by simp
  ultimately show ?case by simp
qed

lemma search_ci_mono: "search_ci kw t \<Longrightarrow> suffix t s \<Longrightarrow> search_ci kw s"
  by (induction s) (auto simp: suffix_Cons)

lemma match_select_needs_FROM:
  assumes "\<not> search_ci ''FROM'' s" and "suffix t s"
  shows "match_select_at t = None"
proof -
  have s: "suffix (dropWhile is_space (drop 6 t)) s"
    using assms(2) by (meson suffix_drop suffix_dropWhile suffix_order.trans)
  then have "\<not> search_ci ''FROM'' (dropWhile is_space (drop 6 t))"
    using assms(1) search_ci_mono by blast
  moreover have "\<not> ci_prefix ''FROM'' (dropWhile is_space (drop 6 t))"
    using s assms(1) search_ci_suffix by blast
  ultimately show ?thesis
    by (simp add: match_select_at_def find_ws_from_needs_FROM Let_def)
qed

lemma find_END_sublist: "find_END s = Some (g, r) \<Longrightarrow> sublist ''END'' s"
proof (induction s arbitrary: g r)
  case Nil
  then show ?case by simp
next
  case (Cons c cs)
  show ?case
  proof (cases "starts_with ''END'' (c # cs)")
    case True
    then show ?thesis
      using starts_with_prefix by (metis prefix_imp_sublist)
  next
    case False
    with Cons.prems obtain g' where "find_END cs = Some (g', r)"
      by (auto split: option.splits)
    then have "sublist ''END'' cs" using Cons.IH by blast
    then show ?thesis by (simp add: sublist_Cons_right)
  qed
qed

lemma match_case_needs_END:
  assumes "\<not> sublist ''END'' s" and "suffix t s"
  shows "match_case_at t = None"
proof (rule ccontr)
  assume "match_case_at t \<noteq> None"
  then obtain c cs g r where d: "drop 4 (dropWhile is_space (drop 4 t)) = c # cs"
      and f: "find_END cs = Some (g, r)"
    by (auto simp: match_case_at_def Let_def split: if_splits list.splits option.splits)
  have "suffix cs (c # cs)" by (simp add: suffix_ConsI)
  also have "suffix (c # cs) t"
    unfolding d[symmetric]
    by (meson suffix_drop suffix_dropWhile suffix_order.trans)
  finally have "suffix cs s" using assms(2) by (meson suffix_order.trans)
  moreover have "sublist ''END'' cs" using f by (rule find_END_sublist)
  ultimately show False using assms(1)
    by (meson sublist_order.order.trans suffix_imp_sublist)
qed

lemma no_keyword_no_match_from:
  "\<not> search_ci ''FROM'' s \<Longrightarrow> suffix t s \<Longrightarrow> match_from_at t = None"
  using search_ci_suffix [of "''FROM''" s t] by (simp add: match_from_at_def)

lemma no_keyword_no_match_select:
  "\<not> search_ci ''SELECT'' s \<Longrightarrow> suffix t s \<Longrightarrow> match_select_at t = None"
  using search_ci_suffix [of "''SELECT''" s t] by (simp add: match_select_at_def)

text \<open>
  C10. \<^verbatim>\<open>extract_sql_details\<close> returns for every text: it yields the three lists and raises
  nothing. A text in which \<^verbatim>\<open>FROM\<close> does not occur, in any case, yields no tables and no
  attributes; a text in which \<^verbatim>\<open>SELECT\<close> does not occur yields no attributes; a text
  in which \<^verbatim>\<open>END\<close> does not occur yields no descriptions. For a clause that contains a
  dot, the read of component 1 of \<^verbatim>\<open>item.split('.')\<close> is in range.
\<close>

theorem extractor_never_raises:
  "\<exists>tables attributes descriptions.
     extract_sql_details sql = Inr (tables, attributes, descriptions) \<and>
     (\<not> search_ci ''FROM'' sql \<longrightarrow> tables = [] \<and> attributes = []) \<and>
     (\<not> search_ci ''SELECT'' sql \<longrightarrow> attributes = []) \<and>
     (\<not> sublist ''END'' sql \<longrightarrow> descriptions = []) \<and>
     (\<forall>item. CHR ''.'' \<in> set item \<longrightarrow> (\<exists>part. index (split_on CHR ''.'' item) 1 = Inr part))"
proof -
  obtain attrs where a: "extract_attribute_names sql = Inr attrs"
    using extract_attribute_names_total by blast
  let ?T = "findall match_from_at sql"
  let ?D = "map (\<lambda>c. ''description: '' @ strip c) (findall match_case_at sql)"
  have eq: "extract_sql_details sql = Inr (?T, attrs, ?D)"
    using a by (simp add: extract_sql_details_def)
  have t: "?T = []" if "\<not> search_ci ''FROM'' sql"
    using that by (intro findall_no_match no_keyword_no_match_from)
  have s1: "findall match_select_at sql = []" if "\<not> search_ci ''FROM'' sql"
    using that by (intro findall_no_match match_select_needs_FROM)
  have s2: "findall match_select_at sql = []" if "\<not> search_ci ''SELECT'' sql"
    using that by (intro findall_no_match no_keyword_no_match_select)
  have e: "?D = []" if "\<not> sublist ''END'' sql"
  proof -
    have "findall match_case_at sql = []"
      using that by (intro findall_no_match match_case_needs_END)
    then show ?thesis by simp
  qed
  have n: "attrs = []" if "findall match_select_at sql = []"
    using a that by (simp add: extract_attribute_names_def)
  have idx: "\<forall>item. CHR ''.'' \<in> set item \<longrightarrow>
      (\<exists>part. index (split_on CHR ''.'' item) 1 = Inr part)"
    by (simp add: split_on_second_Suc)
  show ?thesis
  proof (intro exI conjI impI)
    show "extract_sql_details sql = Inr (?T, attrs, ?D)" by (rule eq)
  next
    assume "\<not> search_ci ''FROM'' sql"
    then show "?T = []" by (rule t)
  next
    assume "\<not> search_ci ''FROM'' sql"
    then have "findall match_select_at sql = []" by (rule s1)
    then show "attrs = []" by (rule n)
  next
    assume "\<not> search_ci ''SELECT'' sql"
    then have "findall match_select_at sql = []" by (rule s2)
    then show "attrs = []" by (rule n)
  next
    assume "\<not> sublist ''END'' sql"
    then show "?D = []" by (rule e)
  next
    show "\<forall>item. CHR ''.'' \<in> set item \<longrightarrow>
      (\<exists>part. index (split_on CHR ''.'' item) 1 = Inr part)" by (rule idx)
  qed
qed

theorem extractor_never_raises_witness:
  "\<not> search_ci ''FROM'' ''CASE WHEN x'' \<and> \<not> search_ci ''SELECT'' ''CASE WHEN x'' \<and>
   \<not> sublist ''END'' ''CASE WHEN x'' \<and>
   extract_sql_details ''CASE WHEN x'' = Inr ([], [], []) \<and>
   CHR ''.'' \<in> set ''a.b'' \<and> (\<exists>part. index (split_on CHR ''.'' ''a.b'') 1 = Inr part)"
proof -
  have h1: "\<not> search_ci ''FROM'' ''CASE WHEN x''" by code_simp
  have h2: "\<not> search_ci ''SELECT'' ''CASE WHEN x''" by code_simp
  have h3: "\<not> sublist ''END'' ''CASE WHEN x''" by code_simp
  have h4: "CHR ''.'' \<in> set ''a.b''" by simp
  obtain tables attributes descriptions where
    e: "extract_sql_details ''CASE WHEN x'' = Inr (tables, attributes, descriptions)" and
    t: "\<not> search_ci ''FROM'' ''CASE WHEN x'' \<longrightarrow> tables = [] \<and> attributes = []" and
    d: "\<not> sublist ''END'' ''CASE WHEN x'' \<longrightarrow> descriptions = []" and
    i: "\<forall>item. CHR ''.'' \<in> set item \<longrightarrow> (\<exists>part. index (split_on CHR ''.'' item) 1 = Inr part)"
    using extractor_never_raises [of "''CASE WHEN x''"] by (elim exE conjE)
  from t h1 have "tables = []" and "attributes = []" by (simp_all only: simp_thms)
  moreover from d h3 have "descriptions = []" by (simp only: simp_thms)
  ultimately have r: "extract_sql_details ''CASE WHEN x'' = Inr ([], [], [])"
    using e by (simp only:)
  from i h4 have "\<exists>part. index (split_on CHR ''.'' ''a.b'') 1 = Inr part"
    by (elim allE impE)
  with h1 h2 h3 h4 r show ?thesis by (intro conjI)
qed

lemma takeWhile_no_sep: "sep \<notin> set xs \<Longrightarrow> takeWhile (\<lambda>c. c \<noteq> sep) xs = xs"
  by (induction xs) auto

text \<open>
  C9, as the code has it. For a trimmed clause that contains a dot, no asterisk and no
  \<^verbatim>\<open>AS\<close> keyword, \<^verbatim>\<open>item.split('.')[1]\<close> is the text between the first dot and the
  next one, or up to the end of the clause when there is no further dot. In that second
  case it is the whole text after the first dot.
\<close>

theorem dotted_clause_emits_part_after_first_dot:
  assumes "CHR ''.'' \<in> set (strip clause)" and "CHR ''*'' \<notin> set (strip clause)"
    and "\<not> search_AS False (strip clause)"
  shows "attribute_of_item clause =
           Inr [takeWhile (\<lambda>c. c \<noteq> CHR ''.'') (tl (dropWhile (\<lambda>c. c \<noteq> CHR ''.'') (strip clause)))] \<and>
         (CHR ''.'' \<notin> set (tl (dropWhile (\<lambda>c. c \<noteq> CHR ''.'') (strip clause))) \<longrightarrow>
            attribute_of_item clause = Inr [tl (dropWhile (\<lambda>c. c \<noteq> CHR ''.'') (strip clause))])"
proof -
  let ?rest = "tl (dropWhile (\<lambda>c. c \<noteq> CHR ''.'') (strip clause))"
  have "index (split_on CHR ''.'' (strip clause)) 1 = Inr (takeWhile (\<lambda>c. c \<noteq> CHR ''.'') ?rest)"
    using assms(1) by (rule split_on_second)
  then have main: "attribute_of_item clause = Inr [takeWhile (\<lambda>c. c \<noteq> CHR ''.'') ?rest]"
    unfolding attribute_of_item_def Let_def using assms by simp
  show ?thesis
  proof (intro conjI impI)
    show "attribute_of_item clause = Inr [takeWhile (\<lambda>c. c \<noteq> CHR ''.'') ?rest]"
      by (rule main)
  next
    assume "CHR ''.'' \<notin> set ?rest"
    then have "takeWhile (\<lambda>c. c \<noteq> CHR ''.'') ?rest = ?rest"
      by (rule takeWhile_no_sep)
    with main show "attribute_of_item clause = Inr [?rest]" by (simp only:)
  qed
qed

theorem dotted_clause_emits_part_after_first_dot_witness:
  "CHR ''.'' \<in> set (strip '' p.name '') \<and> CHR ''*'' \<notin> set (strip '' p.name '') \<and>
   \<not> search_AS False (strip '' p.name '') \<and>
   CHR ''.'' \<notin> set (tl (dropWhile (\<lambda>c. c \<noteq> CHR ''.'') (strip '' p.name ''))) \<and>
   attribute_of_item '' p.name '' = Inr [tl (dropWhile (\<lambda>c. c \<noteq> CHR ''.'') (strip '' p.name ''))] \<and>
   tl (dropWhile (\<lambda>c. c \<noteq> CHR ''.'') (strip '' p.name '')) = ''name''"
proof -
  have h1: "CHR ''.'' \<in> set (strip '' p.name '')" by code_simp
  have h2: "CHR ''*'' \<notin> set (strip '' p.name '')" by code_simp
  have h3: "\<not> search_AS False (strip '' p.name '')" by code_simp
  have h4: "CHR ''.'' \<notin> set (tl (dropWhile (\<lambda>c. c \<noteq> CHR ''.'') (strip '' p.name '')))"
    by code_simp
  have h5: "tl (dropWhile (\<lambda>c. c \<noteq> CHR ''.'') (strip '' p.name '')) = ''name''"
    by code_simp
  from dotted_clause_emits_part_after_first_dot [OF h1 h2 h3] h4
  have "attribute_of_item '' p.name '' = Inr [tl (dropWhile (\<lambda>c. c \<noteq> CHR ''.'') (strip '' p.name ''))]"
    by (rule conjunct2 [THEN mp])
  with h1 h2 h3 h4 h5 show ?thesis by (intro conjI)
qed

text \<open>
  C9, as stated, fails for a clause with two dots: for \<^verbatim>\<open>a.b.c\<close> the text after the first
  dot is \<^verbatim>\<open>b.c\<close>, and the extractor yields \<^verbatim>\<open>b\<close>.
\<close>

theorem second_dot_cuts_clause_counterexample:
  "CHR ''.'' \<in> set (strip ''a.b.c'') \<and> CHR ''*'' \<notin> set (strip ''a.b.c'') \<and>
   \<not> search_AS False (strip ''a.b.c'') \<and>
   tl (dropWhile (\<lambda>c. c \<noteq> CHR ''.'') (strip ''a.b.c'')) = ''b.c'' \<and>
   attribute_of_item ''a.b.c'' = Inr [''b''] \<and>
   extract_attribute_names ''SELECT a.b.c FROM t'' = Inr [''b'']"
  by code_simp

section \<open>Properties of the aggregation\<close>

lemma query_summary_data_length:
  "query_summary_data combined_df = Inr facts \<Longrightarrow>
     length facts =
       length (filter (\<lambda>row. case Query row of Decoded j \<Rightarrow> True | _ \<Rightarrow> False) combined_df)"
proof (induction combined_df arbitrary: facts)
  case Nil
  then show ?case by simp
next
  case (Cons row rows)
  then show ?case
    by (auto split: query_cell.splits sum.splits prod.splits)
qed

lemma summarize_case_query_data_rows:
  "summarize_case_query_data combined_df = Inr df \<Longrightarrow>
     \<exists>facts. query_summary_data combined_df = Inr facts \<and> facts \<noteq> [] \<and> df = map check_row facts"
  by (auto simp: summarize_case_query_data_def check_for_sql_parse_errors_def
      split: sum.splits if_splits)

lemma sum_list_map_sort: "sum_list (map f (sort ys)) = sum_list (map (f :: 'a::linorder \<Rightarrow> nat) ys)"
proof -
  have "sum_mset (mset (map f (sort ys))) = sum_mset (mset (map f ys))"
    by simp
  then show ?thesis
    by (simp only: sum_mset_sum_list)
qed

lemma count_map_filter: "count (mset (map key xs)) n = length (filter (\<lambda>r. key r = n) xs)"
  by (induction xs) auto

lemma group_sizes_sum:
  "sum_list (map (\<lambda>n. length (filter (\<lambda>r. key r = n) xs)) (sort (remdups (map key xs)))) = length xs"
proof -
  let ?f = "\<lambda>n. length (filter (\<lambda>r. key r = n) xs)"
  have "sum_list (map ?f (sort (remdups (map key xs)))) = sum_list (map ?f (remdups (map key xs)))"
    by (rule sum_list_map_sort)
  also have "\<dots> = sum ?f (set (map key xs))"
    by (simp add: sum_list_distinct_conv_sum_set)
  also have "\<dots> = (\<Sum>n\<in>set_mset (mset (map key xs)). count (mset (map key xs)) n)"
    by (simp only: count_map_filter set_mset_mset)
  also have "\<dots> = size (mset (map key xs))"
    by (simp only: size_multiset_overloaded_eq)
  finally show ?thesis by simp
qed

lemma fold_add_length:
  "fold (\<lambda>row c. c + length (f row)) rows a = a + sum_list (map (\<lambda>row. length (f row)) rows)"
  by (induction rows arbitrary: a) auto

lemma frequencies_sum: "sum_list (map frequency_of_execution (osquery_query_summary_list df)) = length df"
  using group_sizes_sum [of query_name df]
  by (simp add: osquery_query_summary_list_def query_table_data_def comp_def Let_def)

lemma counter_length: "counter df = length df"
  using group_sizes_sum [of query_name df]
  by (simp add: counter_def fold_add_length query_table_data_def comp_def Let_def)

text \<open>
  C1, as the code has it. The loop of \<^verbatim>\<open>summarize_case_query_data\<close> appends a summary
  row only for a record whose \<^verbatim>\<open>Query\<close> cell is not null and decodes. Whenever the
  summary is produced, the sum of \<^verbatim>\<open>frequency_of_execution\<close> over the query groups is
  the number of those records, and so is the counter that serves as the denominator of
  the percentages. When every record of the dataset decodes, the sum is the number of
  records of the dataset.
\<close>

theorem frequencies_sum_to_decoded_rows:
  assumes "summarize_case_query_data combined_df = Inr df"
  shows "sum_list (map frequency_of_execution (osquery_query_summary_list df)) =
           length (filter (\<lambda>row. case Query row of Decoded j \<Rightarrow> True | _ \<Rightarrow> False) combined_df) \<and>
         counter df = sum_list (map frequency_of_execution (osquery_query_summary_list df)) \<and>
         ((\<forall>row \<in> set combined_df. \<exists>j. Query row = Decoded j) \<longrightarrow>
            sum_list (map frequency_of_execution (osquery_query_summary_list df)) = length combined_df)"
proof -
  obtain facts where f: "query_summary_data combined_df = Inr facts" and d: "df = map check_row facts"
    using summarize_case_query_data_rows [OF assms] by blast
  have l: "length df =
      length (filter (\<lambda>row. case Query row of Decoded j \<Rightarrow> True | _ \<Rightarrow> False) combined_df)"
    using query_summary_data_length [OF f] d by simp
  have a: "filter (\<lambda>row. case Query row of Decoded j \<Rightarrow> True | _ \<Rightarrow> False) combined_df = combined_df"
    if "\<forall>row \<in> set combined_df. \<exists>j. Query row = Decoded j"
    using that by (intro filter_True) auto
  show ?thesis
    using l a by (simp add: frequencies_sum counter_length)
qed

theorem frequencies_sum_to_decoded_rows_witness:
  "summarize_case_query_data
     [example_row (example_query ''Q1'' ''SELECT name FROM users''),
      example_row (example_query ''Q1'' ''SELECT name FROM users''),
      example_row (example_query ''Q2'' ''SELECT pid FROM processes'')]
   = Inr [\<lparr>query_name = ''Q1'', os_query_table = [''users''], unique_osquery_table = [''users''],
            query_attributes = [''name''], unique_osquery_attributes = [''name''],
            os_query_table_removed_items = [], query_attributes_removed_items = []\<rparr>,
          \<lparr>query_name = ''Q1'', os_query_table = [''users''], unique_osquery_table = [''users''],
            query_attributes = [''name''], unique_osquery_attributes = [''name''],
            os_query_table_removed_items = [], query_attributes_removed_items = []\<rparr>,
          \<lparr>query_name = ''Q2'', os_query_table = [''processes''], unique_osquery_table = [''processes''],
            query_attributes = [''pid''], unique_osquery_attributes = [''pid''],
            os_query_table_removed_items = [], query_attributes_removed_items = []\<rparr>] \<and>
   length [example_row (example_query ''Q1'' ''SELECT name FROM users''),
      example_row (example_query ''Q1'' ''SELECT name FROM users''),
      example_row (example_query ''Q2'' ''SELECT pid FROM processes'')] = 3 \<and>
   sum_list (map frequency_of_execution (osquery_query_summary_list
         [\<lparr>query_name = ''Q1'', os_query_table = [''users''], unique_osquery_table = [''users''],
            query_attributes = [''name''], unique_osquery_attributes = [''name''],
            os_query_table_removed_items = [], query_attributes_removed_items = []\<rparr>,
          \<lparr>query_name = ''Q1'', os_query_table = [''users''], unique_osquery_table = [''users''],
            query_attributes = [''name''], unique_osquery_attributes = [''name''],
            os_query_table_removed_items = [], query_attributes_removed_items = []\<rparr>,
          \<lparr>query_name = ''Q2'', os_query_table = [''processes''], unique_osquery_table = [''processes''],
            query_attributes = [''pid''], unique_osquery_attributes = [''pid''],
            os_query_table_removed_items = [], query_attributes_removed_items = []\<rparr>])) = 3"
proof -
  let ?rows = "[example_row (example_query ''Q1'' ''SELECT name FROM users''),
      example_row (example_query ''Q1'' ''SELECT name FROM users''),
      example_row (example_query ''Q2'' ''SELECT pid FROM processes'')]"
  let ?df = "[\<lparr>query_name = ''Q1'', os_query_table = [''users''], unique_osquery_table = [''users''],
            query_attributes = [''name''], unique_osquery_attributes = [''name''],
            os_query_table_removed_items = [], query_attributes_removed_items = []\<rparr>,
          \<lparr>query_name = ''Q1'', os_query_table = [''users''], unique_osquery_table = [''users''],
            query_attributes = [''name''], unique_osquery_attributes = [''name''],
            os_query_table_removed_items = [], query_attributes_removed_items = []\<rparr>,
          \<lparr>query_name = ''Q2'', os_query_table = [''processes''], unique_osquery_table = [''processes''],
            query_attributes = [''pid''], unique_osquery_attributes = [''pid''],
            os_query_table_removed_items = [], query_attributes_removed_items = []\<rparr>]"
  have h: "summarize_case_query_data ?rows = Inr ?df" by code_simp
  have d: "\<forall>row \<in> set ?rows. \<exists>j. Query row = Decoded j"
    by (simp add: example_row_def example_query_def)
  have l: "length ?rows = 3" by simp
  moreover from frequencies_sum_to_decoded_rows [OF h] d
  have "sum_list (map frequency_of_execution (osquery_query_summary_list ?df)) = length ?rows"
    by (elim conjE impE)
  ultimately have "sum_list (map frequency_of_execution (osquery_query_summary_list ?df)) = 3"
    by (simp only:)
  with h l show ?thesis by (intro conjI)
qed

text \<open>
  C1, as stated, fails on a dataset with a record that does not decode: of these two
  records one is counted.
\<close>

theorem skipped_row_not_counted_counterexample:
  "summarize_case_query_data
     [example_row (example_query ''Q1'' ''SELECT name FROM users''), example_row Malformed]
   = Inr [\<lparr>query_name = ''Q1'', os_query_table = [''users''], unique_osquery_table = [''users''],
            query_attributes = [''name''], unique_osquery_attributes = [''name''],
            os_query_table_removed_items = [], query_attributes_removed_items = []\<rparr>] \<and>
   sum_list (map frequency_of_execution (osquery_query_summary_list
         [\<lparr>query_name = ''Q1'', os_query_table = [''users''], unique_osquery_table = [''users''],
            query_attributes = [''name''], unique_osquery_attributes = [''name''],
            os_query_table_removed_items = [], query_attributes_removed_items = []\<rparr>])) = 1 \<and>
   length [example_row (example_query ''Q1'' ''SELECT name FROM users''), example_row Malformed] = 2"
  by code_simp

lemma query_summary_data_skip:
  "Query row = Malformed \<or> Query row = Null \<Longrightarrow>
     query_summary_data (before @ row # after) = query_summary_data (before @ after)"
  by (induction before) (auto split: query_cell.splits sum.splits prod.splits)

lemma extract_sql_details_total: "\<exists>r. extract_sql_details sql = Inr r"
proof -
  obtain attrs where "extract_attribute_names sql = Inr attrs"
    using extract_attribute_names_total by blast
  then show ?thesis by (simp add: extract_sql_details_def)
qed

lemma query_summary_data_total: "\<exists>facts. query_summary_data combined_df = Inr facts"
proof (induction combined_df)
  case Nil
  then show ?case by simp
next
  case (Cons row rows)
  then obtain rest where r: "query_summary_data rows = Inr rest" by blast
  show ?case
  proof (cases "Query row")
    case (Decoded j)
    obtain t a n where "extract_sql_details (get (command j) []) = Inr (t, a, n)"
      using extract_sql_details_total by (metis prod_cases3)
    with r Decoded show ?thesis by simp
  qed (use r in simp_all)
qed

lemma summary_of_decodable_rows:
  assumes "filter (\<lambda>row. case Query row of Decoded j \<Rightarrow> True | _ \<Rightarrow> False) combined_df \<noteq> []"
  shows "\<exists>df. summarize_case_query_data combined_df = Inr df \<and>
           length df =
             length (filter (\<lambda>row. case Query row of Decoded j \<Rightarrow> True | _ \<Rightarrow> False) combined_df)"
proof -
  obtain facts where f: "query_summary_data combined_df = Inr facts"
    using query_summary_data_total by blast
  have l: "length facts =
      length (filter (\<lambda>row. case Query row of Decoded j \<Rightarrow> True | _ \<Rightarrow> False) combined_df)"
    using f by (rule query_summary_data_length)
  with assms have "facts \<noteq> []" by auto
  then have "summarize_case_query_data combined_df = Inr (map check_row facts)"
    using f by (simp add: summarize_case_query_data_def check_for_sql_parse_errors_def)
  with l show ?thesis by simp
qed

text \<open>
  C2, as the code has it. For a row whose \<^verbatim>\<open>Query\<close> cell fails to decode, the six column
  functions return their sentinels and the combined dataset keeps the row (it has as many
  rows after the columns are added as before). The summary loop skips the row: the
  extractor is not applied to it and no summary row is appended for it, so the summary
  of the dataset is the summary of the dataset without that row. When some other row of
  the dataset decodes, the run continues: the summary is returned, it has one row for
  every row that decodes, and so fewer rows than the dataset.
\<close>

theorem undecodable_row_is_skipped:
  assumes "Query row = Malformed"
  shows "extract_name (Query row) = ''Unnamed'' \<and>
         extract_command (Query row) = [CHR 0x22] @ ''SQL statement not available'' @ [CHR 0x22] \<and>
         extract_principal_type (Query row) = ''Type not available'' \<and>
         extract_query_id (Query row) = ''ID not available'' \<and>
         extract_query_type (Query row) = ''Type not available'' \<and>
         extract_query_categories (Query row) = ''Categories not available'' \<and>
         length (add_extracted_columns (before @ row # after)) = length (before @ row # after) \<and>
         query_summary_data (before @ row # after) = query_summary_data (before @ after) \<and>
         summarize_case_query_data (before @ row # after) = summarize_case_query_data (before @ after) \<and>
         (filter (\<lambda>r. case Query r of Decoded j \<Rightarrow> True | _ \<Rightarrow> False) (before @ after) \<noteq> [] \<longrightarrow>
            (\<exists>df. summarize_case_query_data (before @ row # after) = Inr df \<and>
                  length df =
                    length (filter (\<lambda>r. case Query r of Decoded j \<Rightarrow> True | _ \<Rightarrow> False)
                              (before @ after)) \<and>
                  length df < length (before @ row # after)))"
proof -
  have sentinels:
    "extract_name (Query row) = ''Unnamed'' \<and>
     extract_command (Query row) = [CHR 0x22] @ ''SQL statement not available'' @ [CHR 0x22] \<and>
     extract_principal_type (Query row) = ''Type not available'' \<and>
     extract_query_id (Query row) = ''ID not available'' \<and>
     extract_query_type (Query row) = ''Type not available'' \<and>
     extract_query_categories (Query row) = ''Categories not available''"
    using assms
    by (simp add: extract_name_def extract_command_def extract_principal_type_def
        extract_query_id_def extract_query_type_def extract_query_categories_def)
  have kept: "length (add_extracted_columns (before @ row # after)) = length (before @ row # after)"
    by (simp add: add_extracted_columns_def)
  have skip: "query_summary_data (before @ row # after) = query_summary_data (before @ after)"
    using assms by (intro query_summary_data_skip) simp
  then have same:
    "summarize_case_query_data (before @ row # after) = summarize_case_query_data (before @ after)"
    by (simp add: summarize_case_query_data_def)
  have continues:
    "\<exists>df. summarize_case_query_data (before @ row # after) = Inr df \<and>
           length df =
             length (filter (\<lambda>r. case Query r of Decoded j \<Rightarrow> True | _ \<Rightarrow> False)
                       (before @ after)) \<and>
           length df < length (before @ row # after)"
    if d: "filter (\<lambda>r. case Query r of Decoded j \<Rightarrow> True | _ \<Rightarrow> False) (before @ after) \<noteq> []"
  proof -
    obtain df where s: "summarize_case_query_data (before @ after) = Inr df"
      and l: "length df =
                length (filter (\<lambda>r. case Query r of Decoded j \<Rightarrow> True | _ \<Rightarrow> False)
                          (before @ after))"
      using summary_of_decodable_rows [OF d] by blast
    have "length (filter (\<lambda>r. case Query r of Decoded j \<Rightarrow> True | _ \<Rightarrow> False) (before @ after))
            \<le> length (before @ after)"
      by (rule length_filter_le)
    with l have "length df < length (before @ row # after)" by simp
    with s l same show ?thesis by simp
  qed
  from sentinels kept skip same continues show ?thesis by blast
qed

theorem undecodable_row_is_skipped_witness:
  "Query (example_row Malformed) = Malformed \<and>
   extract_name (Query (example_row Malformed)) = ''Unnamed'' \<and>
   filter (\<lambda>r. case Query r of Decoded j \<Rightarrow> True | _ \<Rightarrow> False)
     ([example_row (example_query ''Q1'' ''SELECT name FROM users'')] @ []) \<noteq> [] \<and>
   (\<exists>df. summarize_case_query_data
            ([example_row (example_query ''Q1'' ''SELECT name FROM users'')] @
             example_row Malformed # []) = Inr df \<and>
         length df = 1 \<and>
         length df <
           length ([example_row (example_query ''Q1'' ''SELECT name FROM users'')] @
                   example_row Malformed # []))"
proof -
  let ?g = "example_row (example_query ''Q1'' ''SELECT name FROM users'')"
  have h: "Query (example_row Malformed) = Malformed"
    by (simp add: example_row_def)
  have d: "filter (\<lambda>r. case Query r of Decoded j \<Rightarrow> True | _ \<Rightarrow> False) ([?g] @ []) \<noteq> []"
    by (simp add: example_row_def example_query_def)
  have n: "length (filter (\<lambda>r. case Query r of Decoded j \<Rightarrow> True | _ \<Rightarrow> False) ([?g] @ [])) = 1"
    by (simp add: example_row_def example_query_def)
  note t = undecodable_row_is_skipped [OF h, of "[?g]" "[]"]
  from t have a: "extract_name (Query (example_row Malformed)) = ''Unnamed''"
    by (rule conjunct1)
  from t d obtain df where
    s: "summarize_case_query_data ([?g] @ example_row Malformed # []) = Inr df" and
    l: "length df = length (filter (\<lambda>r. case Query r of Decoded j \<Rightarrow> True | _ \<Rightarrow> False) ([?g] @ []))" and
    b: "length df < length ([?g] @ example_row Malformed # [])"
    by (elim conjE impE exE)
  from l n have "length df = 1" by (simp only:)
  with s b have "\<exists>df. summarize_case_query_data ([?g] @ example_row Malformed # []) = Inr df \<and>
         length df = 1 \<and> length df < length ([?g] @ example_row Malformed # [])"
    by blast
  with h a d show ?thesis by (intro conjI)
qed

text \<open>
  C2, as stated, fails: the row that does not decode leaves no facts behind, not empty
  ones, so the summary of these two rows has one row.
\<close>

theorem undecodable_row_leaves_no_facts_counterexample:
  "Query (example_row Malformed) = Malformed \<and>
   query_summary_data
     [example_row Malformed, example_row (example_query ''Q1'' ''SELECT name FROM users'')]
   = Inr [\<lparr>query_name = ''Q1'', os_query_table = [''users''], unique_osquery_table = [''users''],
            query_attributes = [''name''], unique_osquery_attributes = [''name'']\<rparr>] \<and>
   length [\<lparr>query_name = ''Q1'', os_query_table = [''users''], unique_osquery_table = [''users''],
            query_attributes = [''name''], unique_osquery_attributes = [''name'']\<rparr>] = 1 \<and>
   length [example_row Malformed, example_row (example_query ''Q1'' ''SELECT name FROM users'')] = 2"
  by code_simp

section \<open>Properties of the report\<close>

text \<open>
  The key set of the document does not depend on the toggles, and the table section is
  never the empty object.
\<close>

lemma report_keys:
  "export_views_to_json df_combined df_summarized t1 t2 t3 t4 =
     JObject [(''osquery_summary'', body)] \<Longrightarrow>
   keys body = [''os_query_data_analysis_stats'', ''os_query_input_query_summary'',
                ''os_query_table_analysis_summary'', ''os_query_attribute_analysis_summary'']"
  by (auto simp: export_views_to_json_def)

lemma table_section_never_empty:
  "add_osquery_table_analysis_summary df_summarized toggle \<noteq> JObject []"
  by (simp add: add_osquery_table_analysis_summary_def)

text \<open>
  C5. With all four toggles off, the sections for the statistics, the queries and the
  attributes are empty objects, and the table section is filled in: the function that
  builds it has no early return for its toggle.
\<close>

theorem table_section_ignores_toggle:
  "summarize_case_query_data [example_row (example_query ''Q1'' ''SELECT pid FROM processes'')]
   = Inr [\<lparr>query_name = ''Q1'', os_query_table = [''processes''],
            unique_osquery_table = [''processes''], query_attributes = [''pid''],
            unique_osquery_attributes = [''pid''], os_query_table_removed_items = [],
            query_attributes_removed_items = []\<rparr>] \<and>
   export_views_to_json [example_row (example_query ''Q1'' ''SELECT pid FROM processes'')]
     [\<lparr>query_name = ''Q1'', os_query_table = [''processes''],
            unique_osquery_table = [''processes''], query_attributes = [''pid''],
            unique_osquery_attributes = [''pid''], os_query_table_removed_items = [],
            query_attributes_removed_items = []\<rparr>] False False False False
   = JObject
      [(''osquery_summary'',
        JObject
         [(''os_query_data_analysis_stats'', JObject []),
          (''os_query_input_query_summary'', JObject []),
          (''os_query_table_analysis_summary'',
           JObject
            [(''unique_table_list'', JArray [JString ''processes'']),
             (''total_table_query_count'',
              JArray [JObject [(''processes'', JInt 1)], JObject [(''processes'', JNumber 100)]]),
             (''table_counts_by_queries'',
              JObject
               [(''processes'',
                 JArray
                  [JObject [(''total_queries'', JInt 1)],
                   JObject [(''query_name'', JString ''Q1''),
                            (''number_of_times_queried'', JInt 1)]])])]),
          (''os_query_attribute_analysis_summary'', JObject [])])]"
  by code_simp

text \<open>
  C6. With the statistics toggle on, the value under \<^verbatim>\<open>os_query_data_analysis_stats\<close> is
  an array whose only element is the object with the seven statistics; it is not an
  object.
\<close>

theorem stats_section_is_array:
  "add_osquery_data_stats_summary
     [example_row (example_query ''Q1'' ''SELECT pid FROM processes'')] True
   = JArray
      [JObject
        [(''total_number_queries_analyzed'', JInt 1),
         (''number_of_unique_cases'', JInt 1),
         (''total_number_of_cases_analyzed'', JInt 1),
         (''number_of_unique_customers'', JInt 1),
         (''total_number_of_customers_analyzed'', JInt 1),
         (''region_list'', JArray [JString ''eu'']),
         (''date_range'', JArray [JString ''2024-12-27 00:00:00''])]] \<and>
   \<not> is_object (add_osquery_data_stats_summary
     [example_row (example_query ''Q1'' ''SELECT pid FROM processes'')] True)"
  by code_simp

end
